theory Spec2Isabelle
  imports Complex_Main "HOL-Library.AList"
begin

section \<open>The Earn Agent (src/main.ts): data model\<close>

text \<open>
  The agent talks to three outside parties: the staking aggregator (over HTTP), the
  chat-completion service and the wallet that signs. The model makes every effect explicit:
  each call, each delay and each console line is appended to a trace, and what the outside
  answers is given by a \<open>world\<close>, a record of functions from the trace so far (and the
  arguments of the call) to the answer, \<open>None\<close> standing for a call that throws.
\<close>

subsection \<open>JavaScript values\<close>

text \<open>
  What \<open>JSON.parse\<close> returns. A JavaScript value that may be \<open>undefined\<close> is a
  \<open>json option\<close>. Numbers carry the value of the double. An object is the list of its
  own properties in insertion order, each key once.
\<close>

datatype json =
    JNull
  | JBool bool
  | JNum rat
  | JStr string
  | JArr "json list"
  | JObj "(string \<times> json) list"

type_synonym jsval = "json option"

text \<open>The result of \<open>parseFloat\<close>: a finite double, an infinity or NaN.\<close>

datatype js_number = NaN | Finite rat | PosInfinity | NegInfinity

text \<open>\<open>x <= 0\<close> and \<open>x > 0\<close> on numbers: both are false on NaN.\<close>

fun le0 :: "js_number \<Rightarrow> bool" where
  "le0 NaN = False"
| "le0 (Finite q) = (q \<le> 0)"
| "le0 PosInfinity = False"
| "le0 NegInfinity = True"

fun gt0 :: "js_number \<Rightarrow> bool" where
  "gt0 NaN = False"
| "gt0 (Finite q) = (0 < q)"
| "gt0 PosInfinity = True"
| "gt0 NegInfinity = False"

text \<open>\<open>!v\<close> is true on undefined, null, false, 0 and the empty string.\<close>

fun truthy :: "jsval \<Rightarrow> bool" where
  "truthy None = False"
| "truthy (Some JNull) = False"
| "truthy (Some (JBool b)) = b"
| "truthy (Some (JNum q)) = (q \<noteq> 0)"
| "truthy (Some (JStr s)) = (s \<noteq> [])"
| "truthy (Some (JArr xs)) = True"
| "truthy (Some (JObj kvs)) = True"

subsection \<open>Interfaces of main.ts and the aggregator's answers\<close>

record token_info =
  tok_address :: "string option"
  tok_symbol :: string

record yield_metadata =
  md_name :: string
  md_cooldownPeriod :: "rat option"
  md_warmupPeriod :: "rat option"
  md_withdrawPeriod :: "rat option"

record YieldOpportunity =
  y_id :: string
  y_apy :: rat
  y_token :: token_info
  y_metadata :: yield_metadata
  y_status_enter :: bool
  y_status_exit :: bool

record EarningPosition =
  p_integrationId :: string
  p_amount :: string

record earn_data =
  yields :: "YieldOpportunity list"
  earningPositions :: "EarningPosition list"
  idleTokenBalances :: "(string \<times> string) list"

text \<open>An entry of a position balance (\<open>{type, amount}\<close>).\<close>

record balance_entry =
  b_type :: string
  b_amount :: string

text \<open>An item of the answer of \<open>POST /v1/yields/balances\<close>.\<close>

record position_item =
  pi_integrationId :: string
  pi_balances :: "balance_entry list"

text \<open>An item of the answer of \<open>POST /v1/tokens/balances\<close>.\<close>

record token_balance =
  tb_amount :: string
  tb_token_address :: "string option"

text \<open>A transaction of an action session, and the answers of construct and status.\<close>

record transaction =
  tx_id :: string
  tx_status :: string
  tx_type :: string

record unsigned_tx =
  unsignedTransaction :: string

record status_resp =
  st_status :: string
  st_url :: "string option"

text \<open>
  The two instruction texts handed to \<open>runAiScenario\<close>: the one of
  \<open>earnAgentIntervalCheck\<close> and the one of \<open>handleChat\<close>.
\<close>

datatype instructions = IntervalInstructions | ChatInstructions

subsection \<open>Calls, console lines, trace\<close>

datatype call =
    GetYields
    \<comment> \<open>\<open>GET /v2/yields?network=arbitrum\<close>\<close>
  | GetYieldDetail jsval
    \<comment> \<open>\<open>GET /v2/yields/${integrationId}\<close>\<close>
  | PostYieldBalances jsval string
    \<comment> \<open>\<open>POST /v1/yields/${integrationId}/balances\<close>, body \<open>{addresses: {address}}\<close>\<close>
  | PostYieldsBalances "(string \<times> string) list"
    \<comment> \<open>\<open>POST /v1/yields/balances\<close>, one (address, integrationId) per yield of the chunk\<close>
  | PostTokenBalances "(string \<times> string option) list"
    \<comment> \<open>\<open>POST /v1/tokens/balances\<close>, one (address, tokenAddress?) per entry, network arbitrum\<close>
  | PostAction string jsval string jsval
    \<comment> \<open>\<open>POST /v1/actions/${endpoint}\<close>, body integrationId, address, amount\<close>
  | PatchTransaction string
    \<comment> \<open>\<open>PATCH /v1/transactions/${tx.id}\<close>\<close>
  | PostSubmit string string
    \<comment> \<open>\<open>POST /v1/transactions/${tx.id}/submit\<close>, body signedTransaction\<close>
  | GetStatus string
    \<comment> \<open>\<open>GET /v1/transactions/${tx.id}/status\<close>\<close>
  | SignTransaction string
    \<comment> \<open>\<open>wallet.signTransaction(JSON.parse(unsignedTransaction))\<close>\<close>
  | ChatCompletion instructions earn_data string
    \<comment> \<open>\<open>openai.chat.completions.create\<close>: the system prompt is built from the
        instructions and the snapshot, the user message follows\<close>

datatype error =
    RequestFailed call
    \<comment> \<open>the \<open>Error\<close> thrown by \<open>get\<close>, \<open>post\<close>, \<open>patch\<close>, or a rejected call\<close>
  | SignerFailed string
  | TypeError

datatype log_line =
    LogStarted | LogUsingAddress string
  | LogBusyInterval        \<comment> \<open>"Earn Agent is busy; skipping interval check..."\<close>
  | LogBusyChat            \<comment> \<open>"Earn Agent is busy; please wait..."\<close>
  | LogIntervalError error | LogInitialError error | LogChatError error
  | LogIntervalCheck       \<comment> \<open>"earnAgentIntervalCheck => scanning ..."\<close>
  | LogAiText string
  | LogMissingSteps        \<comment> \<open>"Scenario JSON is missing 'steps' => skip scenario"\<close>
  | LogParseFailed         \<comment> \<open>"Failed to parse scenario =>"\<close>
  | LogStep jsval jsval jsval
  | LogNoStaked            \<comment> \<open>"No staked => skip EXIT"\<close>
  | LogNoBalance           \<comment> \<open>"No balance => skip ENTER"\<close>
  | LogDone jsval jsval
  | LogTx string           \<comment> \<open>"Earn Agent => TX => ${tx.type}"\<close>
  | LogRetry nat           \<comment> \<open>"Attempt ${i + 1} => retrying..."\<close>
  | LogCannotConstruct     \<comment> \<open>"Earn Agent => cannot construct TX => skip"\<close>
  | LogSubmitted string
  | LogNoStatus            \<comment> \<open>"Earn Agent => no TX status => break"\<close>
  | LogConfirmed "string option"
  | LogFailed | LogPending
  | LogRefreshing | LogRefreshed

datatype event = Call call | Delay nat | Log log_line

text \<open>
  The world: what each call answers after a given trace (\<open>None\<close>: the call throws), and the
  two builtins whose code is not in the repository, \<open>parseFloat\<close> and \<open>JSON.parse\<close>
  (\<open>None\<close>: SyntaxError).
\<close>

record world =
  w_listYields :: "event list \<Rightarrow> YieldOpportunity list option"
  w_yieldDetail :: "event list \<Rightarrow> jsval \<Rightarrow> YieldOpportunity option"
  w_yieldBalances :: "event list \<Rightarrow> jsval \<Rightarrow> string \<Rightarrow> balance_entry list option"
  w_yieldsBalances :: "event list \<Rightarrow> (string \<times> string) list \<Rightarrow> position_item list option"
  w_tokenBalances :: "event list \<Rightarrow> (string \<times> string option) list \<Rightarrow> token_balance list option"
  w_action :: "event list \<Rightarrow> string \<Rightarrow> jsval \<Rightarrow> string \<Rightarrow> jsval \<Rightarrow> transaction list option"
  w_construct :: "event list \<Rightarrow> string \<Rightarrow> unsigned_tx option"
  w_submit :: "event list \<Rightarrow> string \<Rightarrow> string \<Rightarrow> string option"
  w_txStatus :: "event list \<Rightarrow> string \<Rightarrow> status_resp option"
  w_chat :: "event list \<Rightarrow> instructions \<Rightarrow> earn_data \<Rightarrow> string \<Rightarrow> string option"
  parseFloat :: "string \<Rightarrow> js_number"
  JSON_parse :: "string \<Rightarrow> json option"

text \<open>The wallet: its address, and signing (JSON.parse of the payload included).\<close>

record wallet =
  getAddress :: string
  signTransaction :: "string \<Rightarrow> string option"

text \<open>The module's globals \<open>earnAgentBusy\<close> and \<open>earnAgentData\<close>, with the trace.\<close>

record agent_state =
  earnAgentBusy :: bool
  earnAgentData :: earn_data
  trace :: "event list"

definition emit :: "event \<Rightarrow> agent_state \<Rightarrow> agent_state" where
  "emit e s = s\<lparr>trace := trace s @ [e]\<rparr>"

definition emits :: "event list \<Rightarrow> agent_state \<Rightarrow> agent_state" where
  "emits es s = s\<lparr>trace := trace s @ es\<rparr>"

text \<open>
  A computation that ended is a pair of what it returned or threw (\<open>Inl\<close>: the error) and
  the state it left; one that never ends is \<open>None\<close>.
\<close>

type_synonym 'a result = "(error + 'a) \<times> agent_state"

text \<open>An awaited call: recorded in the trace, it returns the answer or throws.\<close>

definition request :: "call \<Rightarrow> 'a option \<Rightarrow> agent_state \<Rightarrow> 'a result" where
  "request c answer s =
     (case answer of
        None \<Rightarrow> (Inl (RequestFailed c), emit (Call c) s)
      | Some v \<Rightarrow> (Inr v, emit (Call c) s))"

section \<open>refreshEarnAgentData\<close>

text \<open>
  \<open>filterSortYields\<close>: keep the yields that can be entered and left and have no
  cooldown, warmup or withdraw period, then sort by descending apy
  (\<open>Array.prototype.sort\<close> is stable, as \<open>sort_key\<close> is).
\<close>

definition noPeriod :: "rat option \<Rightarrow> bool" where
  "noPeriod p = (case p of None \<Rightarrow> True | Some days \<Rightarrow> days = 0)"

definition filterSortYields :: "YieldOpportunity list \<Rightarrow> YieldOpportunity list" where
  "filterSortYields all =
     sort_key (\<lambda>y. - y_apy y)
       (filter (\<lambda>y. y_status_enter y \<and> y_status_exit y
                   \<and> noPeriod (md_cooldownPeriod (y_metadata y))
                   \<and> noPeriod (md_warmupPeriod (y_metadata y))
                   \<and> noPeriod (md_withdrawPeriod (y_metadata y))) all)"

text \<open>\<open>balances.find((b) => b.type === "staked")\<close>\<close>

definition findStaked :: "balance_entry list \<Rightarrow> balance_entry option" where
  "findStaked bs = find (\<lambda>b. b_type b = ''staked'') bs"

text \<open>The inner loop of \<open>fetchEarningPositions\<close> over the items of one answer.\<close>

fun stakedPositions :: "world \<Rightarrow> position_item list \<Rightarrow> EarningPosition list" where
  "stakedPositions w [] = []"
| "stakedPositions w (item # items) =
     (case findStaked (pi_balances item) of
        None \<Rightarrow> stakedPositions w items
      | Some staked \<Rightarrow>
          if gt0 (parseFloat w (b_amount staked))
          then \<lparr>p_integrationId = pi_integrationId item, p_amount = b_amount staked\<rparr>
                 # stakedPositions w items
          else stakedPositions w items)"

text \<open>The outer loop \<open>for (let i = 0; i < yields.length; i += chunkSize)\<close>, chunkSize 15.\<close>

function fetchEarningPositionsLoop ::
  "world \<Rightarrow> YieldOpportunity list \<Rightarrow> string \<Rightarrow> nat \<Rightarrow> EarningPosition list \<Rightarrow> agent_state
     \<Rightarrow> EarningPosition list result" where
  "fetchEarningPositionsLoop w ys address i positions s =
     (if i < length ys then
        (case request (PostYieldsBalances (map (\<lambda>y. (address, y_id y)) (take 15 (drop i ys))))
                (w_yieldsBalances w (trace s) (map (\<lambda>y. (address, y_id y)) (take 15 (drop i ys)))) s of
           (Inl e, s1) \<Rightarrow> (Inl e, s1)
         | (Inr resp, s1) \<Rightarrow>
             fetchEarningPositionsLoop w ys address (i + 15) (positions @ stakedPositions w resp) s1)
      else (Inr positions, s))"
  by pat_completeness auto
termination
  by (relation "measure (\<lambda>(w, ys, address, i, positions, s). length ys - i)") auto

declare fetchEarningPositionsLoop.simps [simp del]

definition fetchEarningPositions ::
  "world \<Rightarrow> YieldOpportunity list \<Rightarrow> string \<Rightarrow> agent_state \<Rightarrow> EarningPosition list result" where
  "fetchEarningPositions w ys address s = fetchEarningPositionsLoop w ys address 0 [] s"

text \<open>
  \<open>toLowerCase\<close> on the ASCII letters (token addresses are hexadecimal strings).
\<close>

definition toLowerCase :: "string \<Rightarrow> string" where
  "toLowerCase str =
     map (\<lambda>c. case map_of (zip ''ABCDEFGHIJKLMNOPQRSTUVWXYZ'' ''abcdefghijklmnopqrstuvwxyz'') c of
                None \<Rightarrow> c
              | Some l \<Rightarrow> l) str"

text \<open>
  \<open>fetchUserBalances\<close>: the \<open>Set\<close> of the non-empty token addresses in insertion order,
  one payload entry per address, and the record of the positive balances, keyed by
  "native" or the lower-case token address (a later entry overwrites an earlier one with
  the same key and keeps its place).
\<close>

definition tokenAddresses :: "YieldOpportunity list \<Rightarrow> string list" where
  "tokenAddresses ys =
     foldl (\<lambda>addrs y.
              case tok_address (y_token y) of
                None \<Rightarrow> addrs
              | Some a \<Rightarrow> if a \<noteq> [] \<and> a \<notin> set addrs then addrs @ [a] else addrs) [] ys"

definition balancesPayload :: "string \<Rightarrow> string list \<Rightarrow> (string \<times> string option) list" where
  "balancesPayload address addrs =
     map (\<lambda>addr. if addr = [] then (address, None) else (address, Some (toLowerCase addr))) addrs"

definition balancesRecord :: "world \<Rightarrow> token_balance list \<Rightarrow> (string \<times> string) list" where
  "balancesRecord w resp =
     foldl (\<lambda>acc b.
              if gt0 (parseFloat w (tb_amount b)) then
                (case tb_token_address b of
                   None \<Rightarrow> AList.update ''native'' (tb_amount b) acc
                 | Some a \<Rightarrow>
                     if a = [] then AList.update ''native'' (tb_amount b) acc
                     else AList.update (toLowerCase a) (tb_amount b) acc)
              else acc) [] resp"

definition fetchUserBalances ::
  "world \<Rightarrow> YieldOpportunity list \<Rightarrow> string \<Rightarrow> agent_state \<Rightarrow> (string \<times> string) list result" where
  "fetchUserBalances w ys address s =
     (case request (PostTokenBalances (balancesPayload address (tokenAddresses ys)))
             (w_tokenBalances w (trace s) (balancesPayload address (tokenAddresses ys))) s of
        (Inl e, s1) \<Rightarrow> (Inl e, s1)
      | (Inr resp, s1) \<Rightarrow> (Inr (balancesRecord w resp), s1))"

definition fetchAllYields :: "world \<Rightarrow> agent_state \<Rightarrow> YieldOpportunity list result" where
  "fetchAllYields w s = request GetYields (w_listYields w (trace s)) s"

text \<open>
  \<open>refreshEarnAgentData\<close> assigns the three fields of \<open>earnAgentData\<close> one after the
  other, each from the call awaited just before.
\<close>

definition refreshEarnAgentData :: "world \<Rightarrow> string \<Rightarrow> agent_state \<Rightarrow> unit result" where
  "refreshEarnAgentData w address s =
     (case fetchAllYields w (emit (Log LogRefreshing) s) of
        (Inl e, s1) \<Rightarrow> (Inl e, s1)
      | (Inr allYields, s1) \<Rightarrow>
          (case fetchEarningPositions w (filterSortYields allYields) address
                  (s1\<lparr>earnAgentData := (earnAgentData s1)\<lparr>yields := filterSortYields allYields\<rparr>\<rparr>) of
             (Inl e, s2) \<Rightarrow> (Inl e, s2)
           | (Inr positions, s2) \<Rightarrow>
               (case fetchUserBalances w (filterSortYields allYields) address
                       (s2\<lparr>earnAgentData := (earnAgentData s2)\<lparr>earningPositions := positions\<rparr>\<rparr>) of
                  (Inl e, s3) \<Rightarrow> (Inl e, s3)
                | (Inr balances, s3) \<Rightarrow>
                    (Inr (),
                     emit (Log LogRefreshed)
                       (s3\<lparr>earnAgentData := (earnAgentData s3)\<lparr>idleTokenBalances := balances\<rparr>\<rparr>)))))"

section \<open>processTransactions\<close>

text \<open>
  The construction loop \<open>for (let i = 0; i < 3; i++)\<close>: \<open>patch\<close> in a \<open>try\<close>; on success
  \<open>break\<close>; in the \<open>catch\<close>, one console line and a delay of 1000 ms.
\<close>

function constructLoop :: "world \<Rightarrow> string \<Rightarrow> nat \<Rightarrow> agent_state \<Rightarrow> unsigned_tx option \<times> agent_state" where
  "constructLoop w txid i s =
     (if i < 3 then
        (case w_construct w (trace s) txid of
           Some u \<Rightarrow> (Some u, emit (Call (PatchTransaction txid)) s)
         | None \<Rightarrow>
             constructLoop w txid (i + 1)
               (emits [Call (PatchTransaction txid), Log (LogRetry (i + 1)), Delay 1000] s))
      else (None, s))"
  by pat_completeness auto
termination
  by (relation "measure (\<lambda>(w, txid, i, s). 3 - i)") auto

declare constructLoop.simps [simp del]

text \<open>
  The polling loop \<open>while (true)\<close>: a status query with its error caught
  (\<open>.catch(() => null)\<close>); it ends on an error, on CONFIRMED and on FAILED, and otherwise
  waits 2000 ms and asks again. When no answer ends the loop, the value is \<open>None\<close>.
\<close>

partial_function (option) pollStatus :: "world \<Rightarrow> string \<Rightarrow> agent_state \<Rightarrow> agent_state option" where
  "pollStatus w txid s =
     (case w_txStatus w (trace s) txid of
        None \<Rightarrow> Some (emits [Call (GetStatus txid), Log LogNoStatus] s)
      | Some status \<Rightarrow>
          if st_status status = ''CONFIRMED''
          then Some (emits [Call (GetStatus txid), Log (LogConfirmed (st_url status))] s)
          else if st_status status = ''FAILED''
          then Some (emits [Call (GetStatus txid), Log LogFailed] s)
          else pollStatus w txid (emits [Call (GetStatus txid), Log LogPending, Delay 2000] s))"

text \<open>
  The batch loop \<open>for (const tx of transactions)\<close>. Signing and submission are awaited
  outside any \<open>try\<close>: their error leaves the function.
\<close>

fun processTransactions :: "world \<Rightarrow> wallet \<Rightarrow> transaction list \<Rightarrow> agent_state \<Rightarrow> unit result option" where
  "processTransactions w wal [] s = Some (Inr (), s)"
| "processTransactions w wal (tx # txs) s =
     (if tx_status tx = ''SKIPPED'' then processTransactions w wal txs s
      else
        (case constructLoop w (tx_id tx) 0 (emit (Log (LogTx (tx_type tx))) s) of
           (None, s1) \<Rightarrow> processTransactions w wal txs (emit (Log LogCannotConstruct) s1)
         | (Some u, s1) \<Rightarrow>
             (case signTransaction wal (unsignedTransaction u) of
                None \<Rightarrow>
                  Some (Inl (SignerFailed (unsignedTransaction u)),
                        emit (Call (SignTransaction (unsignedTransaction u))) s1)
              | Some signedTx \<Rightarrow>
                  (case request (PostSubmit (tx_id tx) signedTx)
                          (w_submit w (trace (emit (Call (SignTransaction (unsignedTransaction u))) s1))
                             (tx_id tx) signedTx)
                          (emit (Call (SignTransaction (unsignedTransaction u))) s1) of
                     (Inl e, s2) \<Rightarrow> Some (Inl e, s2)
                   | (Inr submitResult, s2) \<Rightarrow>
                       (case pollStatus w (tx_id tx) (emit (Log (LogSubmitted submitResult)) s2) of
                          None \<Rightarrow> None
                        | Some s3 \<Rightarrow> processTransactions w wal txs s3)))))"

section \<open>runScenarioStep\<close>

text \<open>
  Lines 333 to 342: the action session is created with \<open>finalAmount\<close>, its transactions
  are processed, and the data is refreshed.
\<close>

definition executeStep ::
  "world \<Rightarrow> wallet \<Rightarrow> jsval \<Rightarrow> jsval \<Rightarrow> jsval \<Rightarrow> agent_state \<Rightarrow> unit result option" where
  "executeStep w wal type integrationId finalAmount s =
     (case request
             (PostAction (if type = Some (JStr ''ENTER'') then ''enter'' else ''exit'')
                integrationId (getAddress wal) finalAmount)
             (w_action w (trace s) (if type = Some (JStr ''ENTER'') then ''enter'' else ''exit'')
                integrationId (getAddress wal) finalAmount) s of
        (Inl e, s1) \<Rightarrow> Some (Inl e, s1)
      | (Inr transactions, s1) \<Rightarrow>
          (case processTransactions w wal transactions s1 of
             None \<Rightarrow> None
           | Some (Inl e, s2) \<Rightarrow> Some (Inl e, s2)
           | Some (Inr u, s2) \<Rightarrow>
               Some (refreshEarnAgentData w (getAddress wal)
                       (emit (Log (LogDone type integrationId)) s2))))"

text \<open>\<open>balResp[0]?.amount || "0"\<close>\<close>

definition firstAmount :: "token_balance list \<Rightarrow> string" where
  "firstAmount balResp =
     (case balResp of [] \<Rightarrow> ''0'' | b # _ \<Rightarrow> if tb_amount b = [] then ''0'' else tb_amount b)"

text \<open>
  The payload of the idle-balance query: \<open>details.token?.address ?? "native"\<close>, and the
  \<open>tokenAddress\<close> field only when that is not "native".
\<close>

definition idlePayload :: "string \<Rightarrow> YieldOpportunity \<Rightarrow> (string \<times> string option) list" where
  "idlePayload address details =
     (case tok_address (y_token details) of
        None \<Rightarrow> [(address, None)]
      | Some tokenAddr \<Rightarrow>
          if tokenAddr \<noteq> ''native'' then [(address, Some tokenAddr)] else [(address, None)])"

definition runScenarioStep ::
  "world \<Rightarrow> wallet \<Rightarrow> jsval \<Rightarrow> jsval \<Rightarrow> jsval \<Rightarrow> agent_state \<Rightarrow> unit result option" where
  "runScenarioStep w wal type integrationId amount s0 =
     (let s = emit (Log (LogStep type integrationId amount)) s0 in
      if \<not> truthy amount then
        (if type = Some (JStr ''EXIT'') then
           (case request (PostYieldBalances integrationId (getAddress wal))
                   (w_yieldBalances w (trace s) integrationId (getAddress wal)) s of
              (Inl e, s1) \<Rightarrow> Some (Inl e, s1)
            | (Inr posResp, s1) \<Rightarrow>
                (case findStaked posResp of
                   None \<Rightarrow> Some (Inr (), emit (Log LogNoStaked) s1)
                 | Some staked \<Rightarrow>
                     if le0 (parseFloat w (b_amount staked))
                     then Some (Inr (), emit (Log LogNoStaked) s1)
                     else executeStep w wal type integrationId (Some (JStr (b_amount staked))) s1))
         else
           (case request (GetYieldDetail integrationId) (w_yieldDetail w (trace s) integrationId) s of
              (Inl e, s1) \<Rightarrow> Some (Inl e, s1)
            | (Inr details, s1) \<Rightarrow>
                (case request (PostTokenBalances (idlePayload (getAddress wal) details))
                        (w_tokenBalances w (trace s1) (idlePayload (getAddress wal) details)) s1 of
                   (Inl e, s2) \<Rightarrow> Some (Inl e, s2)
                 | (Inr balResp, s2) \<Rightarrow>
                     if le0 (parseFloat w (firstAmount balResp))
                     then Some (Inr (), emit (Log LogNoBalance) s2)
                     else executeStep w wal type integrationId (Some (JStr (firstAmount balResp))) s2)))
      else executeStep w wal type integrationId amount s)"

section \<open>parseOpFromCodeBlock and runAiScenario\<close>

text \<open>
  The first occurrence of a (non-empty) string in a text: what stands before it and what
  follows it.
\<close>

fun splitAtFirst :: "string \<Rightarrow> string \<Rightarrow> (string \<times> string) option" where
  "splitAtFirst needle [] = (if needle = [] then Some ([], []) else None)"
| "splitAtFirst needle (c # cs) =
     (if take (length needle) (c # cs) = needle
      then Some ([], drop (length needle) (c # cs))
      else (case splitAtFirst needle cs of
              None \<Rightarrow> None
            | Some (before, after) \<Rightarrow> Some (c # before, after)))"

text \<open>
  \<open>scenarioRegex.exec(aiText)\<close> for the regular expression
  \<^verbatim>\<open>/```json([\s\S]*?)```/\<close>: the leftmost opening fence followed by a closing fence, the
  lazy group being the text up to the first closing fence. The value is the group.
\<close>

definition fenceOpen :: string where
  "fenceOpen = ''```json''"

definition fenceClose :: string where
  "fenceClose = ''```''"

definition scenarioRegexExec :: "string \<Rightarrow> string option" where
  "scenarioRegexExec aiText =
     (case splitAtFirst fenceOpen aiText of
        None \<Rightarrow> None
      | Some (before, rest) \<Rightarrow>
          (case splitAtFirst fenceClose rest of
             None \<Rightarrow> None
           | Some (captured, after) \<Rightarrow> Some captured))"

text \<open>\<open>trim\<close>, on the ASCII white space.\<close>

definition isSpace :: "char \<Rightarrow> bool" where
  "isSpace c = ((of_char c :: nat) \<in> {9, 10, 11, 12, 13, 32})"

definition trim :: "string \<Rightarrow> string" where
  "trim str = rev (dropWhile isSpace (rev (dropWhile isSpace str)))"

text \<open>
  \<open>Object.keys(v).length\<close>: \<open>None\<close> is the TypeError on null. A property read \<open>v.key\<close>
  on a value that is not null, for the keys the code reads (steps, type, integrationId,
  amount): only an object can hold them.
\<close>

fun objectKeysLength :: "json \<Rightarrow> nat option" where
  "objectKeysLength JNull = None"
| "objectKeysLength (JBool b) = Some 0"
| "objectKeysLength (JNum q) = Some 0"
| "objectKeysLength (JStr str) = Some (length str)"
| "objectKeysLength (JArr xs) = Some (length xs)"
| "objectKeysLength (JObj kvs) = Some (length kvs)"

fun getProp :: "json \<Rightarrow> string \<Rightarrow> jsval" where
  "getProp (JObj kvs) key = map_of kvs key"
| "getProp v key = None"

fun isArray :: "jsval \<Rightarrow> bool" where
  "isArray (Some (JArr xs)) = True"
| "isArray v = False"

text \<open>
  \<open>parseOpFromCodeBlock\<close>: the value returned (\<open>None\<close> for null) and the state, since
  two of the four ways to return null write a console line.
\<close>

definition parseOpFromCodeBlock :: "world \<Rightarrow> string \<Rightarrow> agent_state \<Rightarrow> json option \<times> agent_state" where
  "parseOpFromCodeBlock w aiText s =
     (case scenarioRegexExec aiText of
        None \<Rightarrow> (None, s)
      | Some captured \<Rightarrow>
          (case JSON_parse w (trim captured) of
             None \<Rightarrow> (None, emit (Log LogParseFailed) s)
           | Some opsObj \<Rightarrow>
               (case objectKeysLength opsObj of
                  None \<Rightarrow> (None, emit (Log LogParseFailed) s)
                | Some n \<Rightarrow>
                    if n = 0 then (None, s)
                    else if \<not> isArray (getProp opsObj ''steps'')
                    then (None, emit (Log LogMissingSteps) s)
                    else (Some opsObj, s))))"

text \<open>
  The loop \<open>for (const step of op.steps)\<close> of \<open>runAiScenario\<close>. Reading a property of a
  null element throws.
\<close>

fun runSteps :: "world \<Rightarrow> wallet \<Rightarrow> json list \<Rightarrow> agent_state \<Rightarrow> unit result option" where
  "runSteps w wal [] s = Some (Inr (), s)"
| "runSteps w wal (step # steps) s =
     (if step = JNull then Some (Inl TypeError, s)
      else
        (case runScenarioStep w wal (getProp step ''type'') (getProp step ''integrationId'')
                (getProp step ''amount'') s of
           None \<Rightarrow> None
         | Some (Inl e, s1) \<Rightarrow> Some (Inl e, s1)
         | Some (Inr u, s1) \<Rightarrow> runSteps w wal steps s1))"

definition opSteps :: "json \<Rightarrow> json list" where
  "opSteps op = (case getProp op ''steps'' of Some (JArr steps) \<Rightarrow> steps | _ \<Rightarrow> [])"

definition runAiScenario ::
  "world \<Rightarrow> wallet \<Rightarrow> instructions \<Rightarrow> string \<Rightarrow> agent_state \<Rightarrow> bool result option" where
  "runAiScenario w wal systemInstructions userMsg s =
     (case request (ChatCompletion systemInstructions (earnAgentData s) userMsg)
             (w_chat w (trace s) systemInstructions (earnAgentData s) userMsg) s of
        (Inl e, s1) \<Rightarrow> Some (Inl e, s1)
      | (Inr rawAiText, s1) \<Rightarrow>
          (case parseOpFromCodeBlock w rawAiText (emit (Log (LogAiText (trim rawAiText))) s1) of
             (None, s2) \<Rightarrow> Some (Inr False, s2)
           | (Some op, s2) \<Rightarrow>
               (case runSteps w wal (opSteps op) s2 of
                  None \<Rightarrow> None
                | Some (Inl e, s3) \<Rightarrow> Some (Inl e, s3)
                | Some (Inr u, s3) \<Rightarrow> Some (Inr True, s3))))"

section \<open>main: the three triggers and the busy flag\<close>

definition earnAgentIntervalCheck :: "world \<Rightarrow> wallet \<Rightarrow> agent_state \<Rightarrow> bool result option" where
  "earnAgentIntervalCheck w wal s =
     (case refreshEarnAgentData w (getAddress wal) (emit (Log LogIntervalCheck) s) of
        (Inl e, s1) \<Rightarrow> Some (Inl e, s1)
      | (Inr u, s1) \<Rightarrow>
          runAiScenario w wal IntervalInstructions
            ''Do we have a single scenario improvement right now?'' s1)"

definition handleChat :: "world \<Rightarrow> wallet \<Rightarrow> string \<Rightarrow> agent_state \<Rightarrow> bool result option" where
  "handleChat w wal userMsg s = runAiScenario w wal ChatInstructions userMsg s"

text \<open>
  \<open>try { ... } catch (err) { console.error(...) } finally { earnAgentBusy = false }\<close>
  around a cycle that has ended: the error, if any, is written, and the flag is cleared.
\<close>

definition release :: "(error \<Rightarrow> log_line) \<Rightarrow> 'a result \<Rightarrow> agent_state" where
  "release line r =
     (case r of
        (Inl e, s) \<Rightarrow> (emit (Log (line e)) s)\<lparr>earnAgentBusy := False\<rparr>
      | (Inr v, s) \<Rightarrow> s\<lparr>earnAgentBusy := False\<rparr>)"

text \<open>
  The callback of \<open>setInterval\<close> (lines 113 to 127): the body of its \<open>try\<close>, a refresh
  then the check, and the callback itself.
\<close>

definition intervalCycle :: "world \<Rightarrow> wallet \<Rightarrow> agent_state \<Rightarrow> bool result option" where
  "intervalCycle w wal s =
     (case refreshEarnAgentData w (getAddress wal) s of
        (Inl e, s1) \<Rightarrow> Some (Inl e, s1)
      | (Inr u, s1) \<Rightarrow> earnAgentIntervalCheck w wal s1)"



text \<open>The first check of \<open>main\<close> (lines 129 to 136).\<close>

definition initialCheck :: "world \<Rightarrow> wallet \<Rightarrow> agent_state \<Rightarrow> agent_state option" where
  "initialCheck w wal s =
     map_option (release LogInitialError) (earnAgentIntervalCheck w wal (s\<lparr>earnAgentBusy := True\<rparr>))"

text \<open>The state when the module is loaded.\<close>

definition initialState :: agent_state where
  "initialState =
     \<lparr>earnAgentBusy = False,
      earnAgentData = \<lparr>yields = [], earningPositions = [], idleTokenBalances = []\<rparr>,
      trace = []\<rparr>"

text \<open>
  \<open>main\<close> up to the prompt loop: the first refresh is awaited outside any \<open>try\<close> (its
  error ends the process), then the timer is set and the first check runs.
\<close>

definition mainStart :: "world \<Rightarrow> wallet \<Rightarrow> (error + unit) \<times> agent_state option" where
  "mainStart w wal =
     (case refreshEarnAgentData w (getAddress wal)
             (emits [Log LogStarted, Log (LogUsingAddress (getAddress wal))] initialState) of
        (Inl e, s1) \<Rightarrow> (Inl e, Some s1)
      | (Inr u, s1) \<Rightarrow> (Inr (), initialCheck w wal s1))"

section \<open>Notions used in the statements\<close>

text \<open>
  What the polling loop writes for \<open>n\<close> answers that are neither CONFIRMED nor FAILED, which
  answers keep it going, and the console line of the answer that ends it.
\<close>

definition pendingRounds :: "string \<Rightarrow> nat \<Rightarrow> event list" where
  "pendingRounds txid n = concat (replicate n [Call (GetStatus txid), Log LogPending, Delay 2000])"

definition isPending :: "status_resp option \<Rightarrow> bool" where
  "isPending a = (case a of None \<Rightarrow> False
     | Some status \<Rightarrow> st_status status \<noteq> ''CONFIRMED'' \<and> st_status status \<noteq> ''FAILED'')"

definition closingLine :: "status_resp option \<Rightarrow> log_line" where
  "closingLine a = (case a of None \<Rightarrow> LogNoStatus
     | Some status \<Rightarrow> if st_status status = ''CONFIRMED'' then LogConfirmed (st_url status) else LogFailed)"

text \<open>
  What the construction loop writes for \<open>k\<close> failed attempts, the first of them being
  attempt \<open>i\<close> (counted from 0).
\<close>

definition failedAttempts :: "string \<Rightarrow> nat \<Rightarrow> nat \<Rightarrow> event list" where
  "failedAttempts txid i k =
     concat (map (\<lambda>j. [Call (PatchTransaction txid), Log (LogRetry (j + 1)), Delay 1000]) [i..<i + k])"

text \<open>
  The construction calls for the transaction \<open>x\<close> in a trace, and their number.
\<close>

fun isPatch :: "string \<Rightarrow> event \<Rightarrow> bool" where
  "isPatch x (Call (PatchTransaction y)) = (x = y)"
| "isPatch x e = False"

definition patchCount :: "string \<Rightarrow> agent_state \<Rightarrow> nat" where
  "patchCount x s = length (filter (isPatch x) (trace s))"

text \<open>
  A later state of the same run: the flag is the same and the trace has grown.
\<close>

definition continues :: "agent_state \<Rightarrow> agent_state \<Rightarrow> bool" where
  "continues s s' =
     (earnAgentBusy s' = earnAgentBusy s \<and> take (length (trace s)) (trace s') = trace s)"

text \<open>
  The endpoint of the action session, \<open>type === "ENTER" ? "enter" : "exit"\<close>, and the
  first events of the trace a run leaves.
\<close>

definition endpointOf :: "jsval \<Rightarrow> string" where
  "endpointOf type = (if type = Some (JStr ''ENTER'') then ''enter'' else ''exit'')"


text \<open>
  What a run returned or threw, and the events of its trace from a position on.
\<close>

definition returned :: "'a result option \<Rightarrow> (error + 'a) option" where
  "returned run = map_option fst run"

definition eventsFrom :: "nat \<Rightarrow> 'a result option \<Rightarrow> event list option" where
  "eventsFrom n run = map_option (\<lambda>r. drop n (trace (snd r))) run"

text \<open>
  The calls that create an action session, and whether one was made between two states.
\<close>

fun isAction :: "event \<Rightarrow> bool" where
  "isAction (Call (PostAction endpoint integrationId address amount)) = True"
| "isAction e = False"

definition createdSession :: "agent_state \<Rightarrow> agent_state \<Rightarrow> bool" where
  "createdSession s s' = (filter isAction (drop (length (trace s)) (trace s')) \<noteq> [])"

section \<open>A world and a wallet for the examples\<close>

text \<open>
  Stand-ins for the two builtins, right on the strings the examples use: \<open>parseFloat\<close>
  on strings of decimal digits (and NaN on the empty string), \<open>JSON.parse\<close> on four
  documents.
\<close>

fun digitsToNat :: "string \<Rightarrow> nat \<Rightarrow> nat option" where
  "digitsToNat [] acc = Some acc"
| "digitsToNat (c # cs) acc =
     (if 48 \<le> (of_char c :: nat) \<and> (of_char c :: nat) \<le> 57
      then digitsToNat cs (10 * acc + ((of_char c :: nat) - 48)) else None)"

definition exampleParseFloat :: "string \<Rightarrow> js_number" where
  "exampleParseFloat str =
     (if str = [] then NaN
      else (case digitsToNat str 0 of None \<Rightarrow> NaN | Some n \<Rightarrow> Finite (of_nat n)))"

definition docEmpty :: string where
  \<open>docEmpty = ''{}''\<close>

definition docNote :: string where
  \<open>docNote = ''{"note":"hold"}''\<close>

definition docExit :: string where
  \<open>docExit = ''{"steps":[{"type":"EXIT","integrationId":"y1","amount":"5"}]}''\<close>

definition docExitEnter :: string where
  \<open>docExitEnter = ''{"steps":[{"type":"EXIT","integrationId":"y1"},{"type":"ENTER","integrationId":"y3"}]}''\<close>

definition exampleParse :: "string \<Rightarrow> json option" where
  "exampleParse str =
     (if str = docEmpty then Some (JObj [])
      else if str = docNote then Some (JObj [(''note'', JStr ''hold'')])
      else if str = docExit then
        Some (JObj [(''steps'', JArr [JObj [(''type'', JStr ''EXIT''),
                                            (''integrationId'', JStr ''y1''),
                                            (''amount'', JStr ''5'')]])])
      else if str = docExitEnter then
        Some (JObj [(''steps'', JArr [JObj [(''type'', JStr ''EXIT''),
                                            (''integrationId'', JStr ''y1'')],
                                      JObj [(''type'', JStr ''ENTER''),
                                            (''integrationId'', JStr ''y3'')]])])
      else None)"

text \<open>
  Two yields: y1 on the token 0xTOKEN, and y2 on the native token with a cooldown of 7 days.
\<close>

definition yieldY1 :: YieldOpportunity where
  "yieldY1 =
     \<lparr>y_id = ''y1'', y_apy = 1 / 20,
      y_token = \<lparr>tok_address = Some ''0xTOKEN'', tok_symbol = ''TOK''\<rparr>,
      y_metadata = \<lparr>md_name = ''Yield one'', md_cooldownPeriod = None,
                    md_warmupPeriod = Some 0, md_withdrawPeriod = None\<rparr>,
      y_status_enter = True, y_status_exit = True\<rparr>"

definition yieldY2 :: YieldOpportunity where
  "yieldY2 =
     \<lparr>y_id = ''y2'', y_apy = 1 / 10,
      y_token = \<lparr>tok_address = None, tok_symbol = ''ETH''\<rparr>,
      y_metadata = \<lparr>md_name = ''Yield two'', md_cooldownPeriod = Some 7,
                    md_warmupPeriod = None, md_withdrawPeriod = None\<rparr>,
      y_status_enter = True, y_status_exit = True\<rparr>"

definition exampleTx :: "string \<Rightarrow> transaction" where
  "exampleTx txid = \<lparr>tx_id = txid, tx_status = ''CREATED'', tx_type = ''STAKE''\<rparr>"

text \<open>
  The world of the examples. The transaction tx-a can never be constructed, tx-r is
  constructed at the second attempt, the submission of tx-s is refused, the status of tx-u
  cannot be read; every other transaction is constructed at the first attempt, and its
  status is PENDING twice, then CONFIRMED.
  The position in y1 holds 50 staked, the one in y2 holds 0, the one in y4 has no staked
  entry, y3 (on the native token) cannot be queried for positions; the address holds 100 of 0xTOKEN and 0 of the native token.
  An exit creates the transactions tx-a and tx-1, an enter a SKIPPED transaction and tx-u;
  an action of amount "5" has no transaction. The chat service answers four messages.
\<close>

definition exampleWorld :: world where
  "exampleWorld =
     \<lparr>w_listYields = (\<lambda>tr. Some [yieldY2, yieldY1]),
      w_yieldDetail = (\<lambda>tr i.
         if i = Some (JStr ''y1'') then Some yieldY1
         else if i = Some (JStr ''y2'') then Some yieldY2
         else if i = Some (JStr ''y3'') then Some (yieldY2\<lparr>y_id := ''y3''\<rparr>)
         else None),
      w_yieldBalances = (\<lambda>tr i a.
         if i = Some (JStr ''y1'')
         then Some [\<lparr>b_type = ''rewards'', b_amount = ''1''\<rparr>, \<lparr>b_type = ''staked'', b_amount = ''50''\<rparr>]
         else if i = Some (JStr ''y2'') then Some [\<lparr>b_type = ''staked'', b_amount = ''0''\<rparr>]
         else if i = Some (JStr ''y4'') then Some [\<lparr>b_type = ''rewards'', b_amount = ''1''\<rparr>]
         else None),
      w_yieldsBalances = (\<lambda>tr p.
         Some [\<lparr>pi_integrationId = ''y1'',
                pi_balances = [\<lparr>b_type = ''staked'', b_amount = ''50''\<rparr>]\<rparr>]),
      w_tokenBalances = (\<lambda>tr p.
         if p = [(''0xabc'', None)] then Some [\<lparr>tb_amount = ''0'', tb_token_address = None\<rparr>]
         else Some [\<lparr>tb_amount = ''100'', tb_token_address = Some ''0xTOKEN''\<rparr>]),
      w_action = (\<lambda>tr ep i a amt.
         if amt = Some (JStr ''5'') then Some []
         else if ep = ''exit'' then Some [exampleTx ''tx-a'', exampleTx ''tx-1'']
         else Some [\<lparr>tx_id = ''tx-k'', tx_status = ''SKIPPED'', tx_type = ''APPROVAL''\<rparr>,
                    exampleTx ''tx-u'']),
      w_construct = (\<lambda>tr txid.
         if txid = ''tx-a'' then None
         else if txid = ''tx-r'' \<and> filter (isPatch ''tx-r'') tr = [] then None
         else Some \<lparr>unsignedTransaction = txid\<rparr>),
      w_submit = (\<lambda>tr txid signedTx. if txid = ''tx-s'' then None else Some ''ok''),
      w_txStatus = (\<lambda>tr txid.
         if txid = ''tx-u'' then None
         else if length (filter (\<lambda>e. e = Call (GetStatus txid)) tr) < 2
         then Some \<lparr>st_status = ''PENDING'', st_url = None\<rparr>
         else Some \<lparr>st_status = ''CONFIRMED'', st_url = Some ''url''\<rparr>),
      w_chat = (\<lambda>tr i d m.
         if m = ''nothing'' then Some (''All good. ```json '' @ docEmpty @ '' ```'')
         else if m = ''note'' then Some (''```json'' @ docNote @ ''```'')
         else if m = ''broken'' then Some (''```json {steps ```'')
         else if m = ''exit 5'' then Some (''```json'' @ docExit @ ''``` Done, as you asked.'')
         else if m = ''move'' then Some (''```json'' @ docExitEnter @ ''```'')
         else if m = ''hello'' then Some ''Hello, nothing to do.''
         else None),
      parseFloat = exampleParseFloat,
      JSON_parse = exampleParse\<rparr>"

definition exampleWallet :: wallet where
  "exampleWallet =
     \<lparr>getAddress = ''0xabc'',
      signTransaction = (\<lambda>payload. if payload = ''tx-g'' then None else Some (''signed '' @ payload))\<rparr>"

text \<open>
  What a refresh writes and stores in the world of the examples, and what a whole EXIT of
  y1 and a whole ENTER of y1 write when no amount is given.
\<close>

definition refreshedData :: earn_data where
  "refreshedData =
     \<lparr>yields = [yieldY1],
      earningPositions = [\<lparr>p_integrationId = ''y1'', p_amount = ''50''\<rparr>],
      idleTokenBalances = [(''0xtoken'', ''100'')]\<rparr>"

definition refreshEvents :: "event list" where
  "refreshEvents =
     [Log LogRefreshing, Call GetYields, Call (PostYieldsBalances [(''0xabc'', ''y1'')]),
      Call (PostTokenBalances [(''0xabc'', Some ''0xtoken'')]), Log LogRefreshed]"

definition exitEvents :: "jsval \<Rightarrow> event list" where
  "exitEvents amount =
     [Log (LogStep (Some (JStr ''EXIT'')) (Some (JStr ''y1'')) amount),
      Call (PostYieldBalances (Some (JStr ''y1'')) ''0xabc''),
      Call (PostAction ''exit'' (Some (JStr ''y1'')) ''0xabc'' (Some (JStr ''50''))),
      Log (LogTx ''STAKE''),
      Call (PatchTransaction ''tx-a''), Log (LogRetry 1), Delay 1000,
      Call (PatchTransaction ''tx-a''), Log (LogRetry 2), Delay 1000,
      Call (PatchTransaction ''tx-a''), Log (LogRetry 3), Delay 1000,
      Log LogCannotConstruct,
      Log (LogTx ''STAKE''), Call (PatchTransaction ''tx-1''),
      Call (SignTransaction ''tx-1''), Call (PostSubmit ''tx-1'' ''signed tx-1''),
      Log (LogSubmitted ''ok''),
      Call (GetStatus ''tx-1''), Log LogPending, Delay 2000,
      Call (GetStatus ''tx-1''), Log LogPending, Delay 2000,
      Call (GetStatus ''tx-1''), Log (LogConfirmed (Some ''url'')),
      Log (LogDone (Some (JStr ''EXIT'')) (Some (JStr ''y1'')))] @ refreshEvents"


text \<open>
  The two steps of the message "move", what the skipped ENTER of y3 writes, what the whole
  message writes, and what a timer tick writes from the initial state (the chat service does
  not answer the question of the interval check).
\<close>

definition stepExit :: json where
  "stepExit = JObj [(''type'', JStr ''EXIT''), (''integrationId'', JStr ''y1'')]"

definition stepEnter :: json where
  "stepEnter = JObj [(''type'', JStr ''ENTER''), (''integrationId'', JStr ''y3'')]"

definition stepUnknown :: json where
  "stepUnknown = JObj [(''type'', JStr ''EXIT''), (''integrationId'', JStr ''y3'')]"

definition enterSkipEvents :: "event list" where
  "enterSkipEvents =
     [Log (LogStep (Some (JStr ''ENTER'')) (Some (JStr ''y3'')) None),
      Call (GetYieldDetail (Some (JStr ''y3''))),
      Call (PostTokenBalances [(''0xabc'', None)]),
      Log LogNoBalance]"




section \<open>Traces\<close>

lemma emits_emits: "emits es (emits ds s) = emits (ds @ es) s"
  by (simp add: emits_def)

lemma emit_emits: "emit e s = emits [e] s"
  by (simp add: emit_def emits_def)

lemma trace_emits: "trace (emits es s) = trace s @ es"
  by (simp add: emits_def)

lemma emits_Nil: "emits [] s = s"
  by (simp add: emits_def)

section \<open>The polling loop\<close>

lemma pendingRounds_Suc:
  "pendingRounds txid (Suc n) = [Call (GetStatus txid), Log LogPending, Delay 2000] @ pendingRounds txid n"
  by (simp add: pendingRounds_def)

lemma pendingRounds_2:
  "pendingRounds txid 2 = [Call (GetStatus txid), Log LogPending, Delay 2000,
                           Call (GetStatus txid), Log LogPending, Delay 2000]"
  by (simp add: pendingRounds_def numeral_2_eq_2)

lemma pollStatus_rounds:
  assumes "\<forall>j<n. isPending (w_txStatus w (trace s @ pendingRounds txid j) txid)"
    and "\<not> isPending (w_txStatus w (trace s @ pendingRounds txid n) txid)"
  shows "pollStatus w txid s =
     Some (emits (pendingRounds txid n @
        [Call (GetStatus txid), Log (closingLine (w_txStatus w (trace s @ pendingRounds txid n) txid))]) s)"
  using assms
proof (induction n arbitrary: s)
  case 0
  then show ?case
    by (subst pollStatus.simps)
       (auto simp: isPending_def closingLine_def pendingRounds_def split: option.splits)
next
  case (Suc n)
  let ?r = "[Call (GetStatus txid), Log LogPending, Delay 2000]"
  from Suc.prems(1) have p0: "isPending (w_txStatus w (trace s) txid)"
    by (auto simp: pendingRounds_def dest: spec [of _ 0])
  have step: "pollStatus w txid s = pollStatus w txid (emits ?r s)"
    using p0 by (subst pollStatus.simps) (auto simp: isPending_def split: option.splits)
  have a1: "\<forall>j<n. isPending (w_txStatus w (trace (emits ?r s) @ pendingRounds txid j) txid)"
  proof (intro allI impI)
    fix j assume "j < n"
    then have "Suc j < Suc n" by simp
    with Suc.prems(1) have "isPending (w_txStatus w (trace s @ pendingRounds txid (Suc j)) txid)"
      by blast
    then show "isPending (w_txStatus w (trace (emits ?r s) @ pendingRounds txid j) txid)"
      by (simp add: trace_emits pendingRounds_Suc)
  qed
  have a2: "\<not> isPending (w_txStatus w (trace (emits ?r s) @ pendingRounds txid n) txid)"
    using Suc.prems(2) by (simp add: trace_emits pendingRounds_Suc)
  show ?case
    using Suc.IH [OF a1 a2] step
    by (simp add: trace_emits pendingRounds_Suc emits_emits)
qed

lemma pollStatus_shape:
  assumes "pollStatus w txid s = Some s'"
  shows "\<exists>n l. s' = emits (pendingRounds txid n @ [Call (GetStatus txid), Log l]) s"
  using assms
proof (induction w txid s s' rule: pollStatus.raw_induct)
  case (1 f w txid s s')
  let ?r = "[Call (GetStatus txid), Log LogPending, Delay 2000]"
  show ?case
  proof (cases "isPending (w_txStatus w (trace s) txid)")
    case False
    with 1(2) have "\<exists>l. s' = emits (pendingRounds txid 0 @ [Call (GetStatus txid), Log l]) s"
      by (auto simp: isPending_def pendingRounds_def split: option.splits if_splits)
    then show ?thesis by blast
  next
    case True
    with 1(2) have f: "f w txid (emits ?r s) = Some s'"
      by (auto simp: isPending_def split: option.splits if_splits)
    from True 1(3) have p: "pollStatus w txid (emits ?r s) = Some s'"
      by (subst (asm) pollStatus.simps) (auto simp: isPending_def split: option.splits if_splits)
    from 1(1) [OF f p] obtain n l where
      "s' = emits (pendingRounds txid n @ [Call (GetStatus txid), Log l]) (emits ?r s)" by blast
    then have "s' = emits (pendingRounds txid (Suc n) @ [Call (GetStatus txid), Log l]) s"
      by (simp add: emits_emits pendingRounds_Suc)
    then show ?thesis by blast
  qed
qed (rule assms)

section \<open>The construction loop\<close>

lemma failedAttempts_0: "failedAttempts txid i 0 = []"
  by (simp add: failedAttempts_def)

lemma failedAttempts_Suc:
  "failedAttempts txid i (Suc k) =
     [Call (PatchTransaction txid), Log (LogRetry (i + 1)), Delay 1000] @ failedAttempts txid (Suc i) k"
  by (simp add: failedAttempts_def upt_rec [of i])

lemma constructLoop_success:
  assumes "i + k < 3"
    and "\<forall>j<k. w_construct w (trace s @ failedAttempts txid i j) txid = None"
    and "w_construct w (trace s @ failedAttempts txid i k) txid = Some u"
  shows "constructLoop w txid i s =
     (Some u, emits (failedAttempts txid i k @ [Call (PatchTransaction txid)]) s)"
  using assms
proof (induction k arbitrary: i s)
  case 0
  then show ?case
    by (subst constructLoop.simps) (simp add: failedAttempts_0 emit_emits)
next
  case (Suc k)
  let ?r = "[Call (PatchTransaction txid), Log (LogRetry (i + 1)), Delay 1000]"
  from Suc.prems(2) have f0: "w_construct w (trace s) txid = None"
    by (auto simp: failedAttempts_0 dest: spec [of _ 0])
  have step: "constructLoop w txid i s = constructLoop w txid (Suc i) (emits ?r s)"
    using f0 Suc.prems(1) by (subst constructLoop.simps) simp
  have a1: "\<forall>j<k. w_construct w (trace (emits ?r s) @ failedAttempts txid (Suc i) j) txid = None"
  proof (intro allI impI)
    fix j assume "j < k"
    then have "Suc j < Suc k" by simp
    with Suc.prems(2) have "w_construct w (trace s @ failedAttempts txid i (Suc j)) txid = None"
      by blast
    then show "w_construct w (trace (emits ?r s) @ failedAttempts txid (Suc i) j) txid = None"
      by (simp add: trace_emits failedAttempts_Suc)
  qed
  have a2: "w_construct w (trace (emits ?r s) @ failedAttempts txid (Suc i) k) txid = Some u"
    using Suc.prems(3) by (simp add: trace_emits failedAttempts_Suc)
  have a0: "Suc i + k < 3" using Suc.prems(1) by simp
  show ?case
    using Suc.IH [OF a0 a1 a2] step
    by (simp add: failedAttempts_Suc emits_emits)
qed

lemma constructLoop_exhausted:
  assumes "i + k = 3"
    and "\<forall>j<k. w_construct w (trace s @ failedAttempts txid i j) txid = None"
  shows "constructLoop w txid i s = (None, emits (failedAttempts txid i k) s)"
  using assms
proof (induction k arbitrary: i s)
  case 0
  then show ?case
    by (subst constructLoop.simps) (simp add: failedAttempts_0 emits_Nil)
next
  case (Suc k)
  let ?r = "[Call (PatchTransaction txid), Log (LogRetry (i + 1)), Delay 1000]"
  from Suc.prems(2) have f0: "w_construct w (trace s) txid = None"
    by (auto simp: failedAttempts_0 dest: spec [of _ 0])
  have step: "constructLoop w txid i s = constructLoop w txid (Suc i) (emits ?r s)"
    using f0 Suc.prems(1) by (subst constructLoop.simps) simp
  have a1: "\<forall>j<k. w_construct w (trace (emits ?r s) @ failedAttempts txid (Suc i) j) txid = None"
  proof (intro allI impI)
    fix j assume "j < k"
    then have "Suc j < Suc k" by simp
    with Suc.prems(2) have "w_construct w (trace s @ failedAttempts txid i (Suc j)) txid = None"
      by blast
    then show "w_construct w (trace (emits ?r s) @ failedAttempts txid (Suc i) j) txid = None"
      by (simp add: trace_emits failedAttempts_Suc)
  qed
  have a0: "Suc i + k = 3" using Suc.prems(1) by simp
  show ?case
    using Suc.IH [OF a0 a1] step
    by (simp add: failedAttempts_Suc emits_emits)
qed

lemma patchCount_emits:
  "patchCount x (emits es s) = patchCount x s + length (filter (isPatch x) es)"
  by (simp add: patchCount_def emits_def)

lemma constructLoop_patchCount:
  "patchCount x (snd (constructLoop w txid i s)) \<le> patchCount x s + (if x = txid then 3 - i else 0)"
proof (induction w txid i s rule: constructLoop.induct)
  case (1 w txid i s)
  show ?case
  proof (cases "i < 3")
    case False
    then show ?thesis by (subst constructLoop.simps) simp
  next
    case True
    show ?thesis
    proof (cases "w_construct w (trace s) txid")
      case None
      with True 1 [OF True None] show ?thesis
        by (subst constructLoop.simps) (auto simp: patchCount_emits)
    next
      case (Some u)
      with True show ?thesis
        by (subst constructLoop.simps) (auto simp: patchCount_emits emit_emits)
    qed
  qed
qed

lemma pendingRounds_noPatch: "filter (isPatch x) (pendingRounds txid n) = []"
  by (induction n) (simp_all add: pendingRounds_def)

lemma pollStatus_patchCount:
  "pollStatus w txid s = Some s' \<Longrightarrow> patchCount x s' = patchCount x s"
  by (drule pollStatus_shape) (auto simp: patchCount_emits pendingRounds_noPatch)

section \<open>The batch\<close>

lemma processTransactions_patchCount:
  "processTransactions w wal txs s = Some r \<Longrightarrow>
     patchCount x (snd r) \<le> patchCount x s +
        3 * length (filter (\<lambda>tx. tx_id tx = x \<and> tx_status tx \<noteq> ''SKIPPED'') txs)"
proof (induction txs arbitrary: s)
  case Nil
  then show ?case by auto
next
  case (Cons tx txs)
  show ?case
  proof (cases "tx_status tx = ''SKIPPED''")
    case True
    with Cons show ?thesis by simp
  next
    case False
    obtain cu s1 where c: "constructLoop w (tx_id tx) 0 (emit (Log (LogTx (tx_type tx))) s) = (cu, s1)"
      by (cases "constructLoop w (tx_id tx) 0 (emit (Log (LogTx (tx_type tx))) s)")
    have b1: "patchCount x s1 \<le> patchCount x s + (if x = tx_id tx then 3 else 0)"
      using constructLoop_patchCount [of x w "tx_id tx" 0 "emit (Log (LogTx (tx_type tx))) s"] c
      by (auto simp: emit_emits patchCount_emits split: if_splits)
    show ?thesis
    proof (cases cu)
      case None
      with Cons.prems False c
      have "processTransactions w wal txs (emit (Log LogCannotConstruct) s1) = Some r" by simp
      from Cons.IH [OF this] b1 show ?thesis
        using False by (auto simp: emit_emits patchCount_emits)
    next
      case (Some u)
      show ?thesis
      proof (cases "signTransaction wal (unsignedTransaction u)")
        case None
        with Cons.prems False c Some b1 show ?thesis
          by (auto simp: emit_emits patchCount_emits)
      next
        case sg: (Some signedTx)
        let ?s1' = "emit (Call (SignTransaction (unsignedTransaction u))) s1"
        show ?thesis
        proof (cases "w_submit w (trace ?s1') (tx_id tx) signedTx")
          case None
          with Cons.prems False c Some sg b1 show ?thesis
            by (auto simp: emit_emits patchCount_emits request_def)
        next
          case sb: (Some submitResult)
          let ?s2 = "emit (Log (LogSubmitted submitResult)) (emit (Call (PostSubmit (tx_id tx) signedTx)) ?s1')"
          from Cons.prems False c Some sg sb obtain s3 where
            p: "pollStatus w (tx_id tx) ?s2 = Some s3" and
            q: "processTransactions w wal txs s3 = Some r"
            by (auto simp: request_def split: option.splits)
          from pollStatus_patchCount [OF p] have "patchCount x s3 = patchCount x s1"
            by (simp add: emit_emits patchCount_emits)
          with Cons.IH [OF q] b1 show ?thesis
            using False by auto
        qed
      qed
    qed
  qed
qed

lemma processTransactions_append:
  "processTransactions w wal (pre @ post) s =
     (case processTransactions w wal pre s of
        None \<Rightarrow> None
      | Some (Inl e, s1) \<Rightarrow> Some (Inl e, s1)
      | Some (Inr u, s1) \<Rightarrow> processTransactions w wal post s1)"
proof (induction pre arbitrary: s)
  case Nil
  show ?case by simp
next
  case (Cons tx pre)
  show ?case
    by (simp add: Cons.IH request_def split: prod.splits option.splits sum.splits)
qed

lemma example_run_tx1:
  "processTransactions exampleWorld exampleWallet [exampleTx ''tx-1''] initialState =
     Some (Inr (),
       emits [Log (LogTx ''STAKE''), Call (PatchTransaction ''tx-1''),
              Call (SignTransaction ''tx-1''), Call (PostSubmit ''tx-1'' ''signed tx-1''),
              Log (LogSubmitted ''ok''),
              Call (GetStatus ''tx-1''), Log LogPending, Delay 2000,
              Call (GetStatus ''tx-1''), Log LogPending, Delay 2000,
              Call (GetStatus ''tx-1''), Log (LogConfirmed (Some ''url''))] initialState)"
  by (simp add: constructLoop.simps pollStatus.simps exampleWorld_def exampleWallet_def
      exampleTx_def initialState_def emit_def emits_def request_def)

section \<open>Every function only appends to the trace and leaves the flag\<close>

lemma continues_refl: "continues s s"
  by (simp add: continues_def)

lemma continues_trans: "continues s s1 \<Longrightarrow> continues s1 s2 \<Longrightarrow> continues s s2"
  unfolding continues_def
  by (metis append_eq_conv_conj append_take_drop_id append.assoc)

lemma continues_emits: "continues s (emits es s)"
  by (simp add: continues_def emits_def)

lemma continues_emit: "continues s (emit e s)"
  by (simp add: continues_def emit_def)


lemma continues_emits_left: "continues (emits es s) s' \<Longrightarrow> continues s s'"
  using continues_emits continues_trans by blast

lemma continues_emit_left: "continues (emit e s) s' \<Longrightarrow> continues s s'"
  using continues_emit continues_trans by blast

lemma continues_trace: "continues s s' \<Longrightarrow> \<exists>es. trace s' = trace s @ es"
  unfolding continues_def by (metis append_take_drop_id)

lemma request_state: "request c a s = (r, s') \<Longrightarrow> s' = emit (Call c) s"
  by (auto simp: request_def split: option.splits)

lemma constructLoop_continues: "continues s (snd (constructLoop w txid i s))"
proof (induction w txid i s rule: constructLoop.induct)
  case (1 w txid i s)
  show ?case
  proof (cases "i < 3")
    case False
    then show ?thesis by (subst constructLoop.simps) (simp add: continues_refl)
  next
    case True
    show ?thesis
    proof (cases "w_construct w (trace s) txid")
      case None
      from 1 [OF True None] have "continues s (snd (constructLoop w txid (i + 1)
          (emits [Call (PatchTransaction txid), Log (LogRetry (i + 1)), Delay 1000] s)))"
        by (rule continues_emits_left)
      with True None show ?thesis by (subst constructLoop.simps) simp
    next
      case (Some u)
      with True show ?thesis by (subst constructLoop.simps) (simp add: continues_emit)
    qed
  qed
qed

lemma pollStatus_continues: "pollStatus w txid s = Some s' \<Longrightarrow> continues s s'"
  by (drule pollStatus_shape) (auto simp: continues_emits)

lemma processTransactions_continues:
  "processTransactions w wal txs s = Some r \<Longrightarrow> continues s (snd r)"
proof (induction txs arbitrary: s)
  case Nil
  then show ?case by (auto simp: continues_refl)
next
  case (Cons tx txs)
  show ?case
  proof (cases "tx_status tx = ''SKIPPED''")
    case True
    with Cons show ?thesis by simp
  next
    case False
    obtain cu s1 where c: "constructLoop w (tx_id tx) 0 (emit (Log (LogTx (tx_type tx))) s) = (cu, s1)"
      by (cases "constructLoop w (tx_id tx) 0 (emit (Log (LogTx (tx_type tx))) s)")
    have b1: "continues s s1"
      using constructLoop_continues [of "emit (Log (LogTx (tx_type tx))) s" w "tx_id tx" 0] c
      by (auto dest: continues_emit_left)
    show ?thesis
    proof (cases cu)
      case None
      with Cons.prems False c
      have "processTransactions w wal txs (emit (Log LogCannotConstruct) s1) = Some r" by simp
      from Cons.IH [OF this] have "continues s1 (snd r)" by (rule continues_emit_left)
      with b1 show ?thesis by (rule continues_trans)
    next
      case (Some u)
      show ?thesis
      proof (cases "signTransaction wal (unsignedTransaction u)")
        case None
        with Cons.prems False c Some have "snd r = emit (Call (SignTransaction (unsignedTransaction u))) s1"
          by auto
        with b1 show ?thesis using continues_emit continues_trans by metis
      next
        case sg: (Some signedTx)
        let ?s1' = "emit (Call (SignTransaction (unsignedTransaction u))) s1"
        show ?thesis
        proof (cases "w_submit w (trace ?s1') (tx_id tx) signedTx")
          case None
          with Cons.prems False c Some sg
          have "snd r = emit (Call (PostSubmit (tx_id tx) signedTx)) ?s1'"
            by (auto simp: request_def)
          then have "continues s1 (snd r)"
            using continues_emit continues_trans by metis
          with b1 show ?thesis by (rule continues_trans)
        next
          case sb: (Some submitResult)
          let ?s2 = "emit (Log (LogSubmitted submitResult)) (emit (Call (PostSubmit (tx_id tx) signedTx)) ?s1')"
          from Cons.prems False c Some sg sb obtain s3 where
            p: "pollStatus w (tx_id tx) ?s2 = Some s3" and
            q: "processTransactions w wal txs s3 = Some r"
            by (auto simp: request_def split: option.splits)
          have "continues s1 ?s2"
            using continues_emit continues_trans by metis
          moreover have "continues ?s2 s3" using p by (rule pollStatus_continues)
          moreover have "continues s3 (snd r)" using q by (rule Cons.IH)
          ultimately show ?thesis using b1 continues_trans by blast
        qed
      qed
    qed
  qed
qed



section \<open>Steps\<close>


section \<open>Runs in the world of the examples\<close>

lemmas example_defs =
  exampleWorld_def exampleWallet_def exampleTx_def exampleParse_def exampleParseFloat_def
  yieldY1_def yieldY2_def docEmpty_def docNote_def docExit_def docExitEnter_def initialState_def

lemmas run_defs =
  runScenarioStep_def executeStep_def refreshEarnAgentData_def fetchAllYields_def
  fetchEarningPositions_def fetchEarningPositionsLoop.simps fetchUserBalances_def
  filterSortYields_def noPeriod_def findStaked_def tokenAddresses_def balancesPayload_def
  balancesRecord_def toLowerCase_def firstAmount_def idlePayload_def
  constructLoop.simps pollStatus.simps request_def emit_def emits_def

lemma example_refresh:
  "refreshEarnAgentData exampleWorld ''0xabc'' s =
     (Inr (), (emits refreshEvents s)\<lparr>earnAgentData := refreshedData\<rparr>)"
  by (simp add: run_defs example_defs refreshedData_def refreshEvents_def)

lemma example_exit:
  "\<not> truthy amount \<Longrightarrow>
   runScenarioStep exampleWorld exampleWallet (Some (JStr ''EXIT'')) (Some (JStr ''y1'')) amount initialState =
     Some (Inr (), (emits (exitEvents amount) initialState)\<lparr>earnAgentData := refreshedData\<rparr>)"
  by (simp add: run_defs example_defs refreshedData_def refreshEvents_def exitEvents_def)



section \<open>Steps, scenarios and cycles only append to the trace and leave the flag\<close>









section \<open>The fenced block\<close>

lemma splitAtFirst_length:
  "needle \<noteq> [] \<Longrightarrow> splitAtFirst needle xs = Some (a, b) \<Longrightarrow> length needle \<le> length xs"
proof (induction xs arbitrary: a)
  case Nil
  then show ?case by simp
next
  case (Cons c cs)
  show ?case
  proof (cases "take (length needle) (c # cs) = needle")
    case True
    then have "length (take (length needle) (c # cs)) = length needle" by simp
    then show ?thesis by (simp add: min_def split: if_splits)
  next
    case False
    with Cons.prems obtain a' where "splitAtFirst needle cs = Some (a', b)"
      by (auto split: option.splits)
    from Cons.IH [OF Cons.prems(1) this] show ?thesis by simp
  qed
qed

lemma take_append_le: "n \<le> length xs \<Longrightarrow> take n (xs @ t) = take n xs"
  by simp

lemma drop_append_le: "n \<le> length xs \<Longrightarrow> drop n (xs @ t) = drop n xs @ t"
  by simp

lemma splitAtFirst_append:
  "needle \<noteq> [] \<Longrightarrow> splitAtFirst needle xs = Some (a, b) \<Longrightarrow>
     splitAtFirst needle (xs @ trailing) = Some (a, b @ trailing)"
proof (induction xs arbitrary: a)
  case Nil
  then show ?case by simp
next
  case (Cons c cs)
  from splitAtFirst_length [OF Cons.prems] have len: "length needle \<le> length (c # cs)" .
  show ?case
  proof (cases "take (length needle) (c # cs) = needle")
    case True
    with Cons.prems have ab: "a = []" "b = drop (length needle) (c # cs)" by auto
    from True take_append_le [OF len, of trailing]
    have t: "take (length needle) ((c # cs) @ trailing) = needle" by simp
    from drop_append_le [OF len, of trailing]
    have d: "drop (length needle) ((c # cs) @ trailing) = drop (length needle) (c # cs) @ trailing"
      by simp
    have "splitAtFirst needle ((c # cs) @ trailing) =
            Some ([], drop (length needle) ((c # cs) @ trailing))"
      using t by simp
    with ab d show ?thesis by simp
  next
    case False
    with Cons.prems obtain a' where s: "splitAtFirst needle cs = Some (a', b)" and a: "a = c # a'"
      by (auto split: option.splits)
    from False take_append_le [OF len, of trailing]
    have "take (length needle) ((c # cs) @ trailing) \<noteq> needle" by simp
    with Cons.IH [OF Cons.prems(1) s] a show ?thesis by simp
  qed
qed

lemma splitAtFirst_sound:
  "splitAtFirst needle xs = Some (a, b) \<Longrightarrow> xs = a @ needle @ b"
proof (induction xs arbitrary: a)
  case Nil
  then show ?case by (auto split: if_splits)
next
  case (Cons c cs)
  show ?case
  proof (cases "take (length needle) (c # cs) = needle")
    case True
    with Cons.prems have "a = []" "b = drop (length needle) (c # cs)" by auto
    with True show ?thesis by (metis append_Nil append_take_drop_id)
  next
    case False
    with Cons.prems obtain a' where s: "splitAtFirst needle cs = Some (a', b)" and a: "a = c # a'"
      by (auto split: option.splits)
    from Cons.IH [OF s] a show ?thesis by simp
  qed
qed

lemma splitAtFirst_complete:
  "splitAtFirst needle (a @ needle @ b) \<noteq> None"
proof (induction a)
  case Nil
  show ?case
  proof (cases "needle @ b")
    case Nil
    then show ?thesis by simp
  next
    case (Cons c cs)
    have "take (length needle) (needle @ b) = needle" by simp
    with Cons have "take (length needle) (c # cs) = needle" by simp
    then have "splitAtFirst needle (c # cs) = Some ([], drop (length needle) (c # cs))"
      by simp
    with Cons show ?thesis by simp
  qed
next
  case (Cons c a)
  then show ?case by (auto split: option.splits)
qed

lemma scenarioRegexExec_append:
  assumes "scenarioRegexExec aiText = Some captured"
  shows "scenarioRegexExec (aiText @ trailing) = Some captured"
proof -
  from assms obtain before rest after where
    a: "splitAtFirst fenceOpen aiText = Some (before, rest)" and
    b: "splitAtFirst fenceClose rest = Some (captured, after)"
    by (auto simp: scenarioRegexExec_def split: option.splits)
  have "splitAtFirst fenceOpen (aiText @ trailing) = Some (before, rest @ trailing)"
    using a by (intro splitAtFirst_append) (simp_all add: fenceOpen_def)
  moreover have "splitAtFirst fenceClose (rest @ trailing) = Some (captured, after @ trailing)"
    using b by (intro splitAtFirst_append) (simp_all add: fenceClose_def)
  ultimately show ?thesis by (simp add: scenarioRegexExec_def)
qed

lemma splitAtFirst_first:
  "splitAtFirst needle (p @ needle @ r) = Some (a, b) \<Longrightarrow> length a \<le> length p"
proof (induction p arbitrary: a)
  case Nil
  show ?case
  proof (cases "needle @ r")
    case Nil
    with Nil.prems show ?thesis by (auto split: if_splits)
  next
    case (Cons c cs)
    have "take (length needle) (needle @ r) = needle" by simp
    with Cons have "take (length needle) (c # cs) = needle" by simp
    then have "splitAtFirst needle (c # cs) = Some ([], drop (length needle) (c # cs))"
      by simp
    with Cons Nil.prems show ?thesis by simp
  qed
next
  case (Cons c p)
  show ?case
  proof (cases "take (length needle) (c # p @ needle @ r) = needle")
    case True
    with Cons.prems show ?thesis by simp
  next
    case False
    with Cons.prems obtain a' where s: "splitAtFirst needle (p @ needle @ r) = Some (a', b)"
      and a: "a = c # a'"
      by (auto split: option.splits)
    from Cons.IH [OF s] a show ?thesis by simp
  qed
qed

lemma scenarioRegexExec_Some_iff:
  "(\<exists>captured. scenarioRegexExec aiText = Some captured) \<longleftrightarrow>
     (\<exists>before captured after. aiText = before @ fenceOpen @ captured @ fenceClose @ after)"
proof
  assume "\<exists>captured. scenarioRegexExec aiText = Some captured"
  then obtain captured a rest after where
    s1: "splitAtFirst fenceOpen aiText = Some (a, rest)" and
    s2: "splitAtFirst fenceClose rest = Some (captured, after)"
    by (auto simp: scenarioRegexExec_def split: option.splits)
  from splitAtFirst_sound [OF s1] splitAtFirst_sound [OF s2]
  have "aiText = a @ fenceOpen @ captured @ fenceClose @ after" by simp
  then show "\<exists>before captured after. aiText = before @ fenceOpen @ captured @ fenceClose @ after"
    by blast
next
  assume "\<exists>before captured after. aiText = before @ fenceOpen @ captured @ fenceClose @ after"
  then obtain p c q where t: "aiText = p @ fenceOpen @ c @ fenceClose @ q" by blast
  have "splitAtFirst fenceOpen (p @ fenceOpen @ (c @ fenceClose @ q)) \<noteq> None"
    by (rule splitAtFirst_complete)
  with t obtain a rest where s1: "splitAtFirst fenceOpen aiText = Some (a, rest)" by auto
  from s1 t have "length a \<le> length p"
    using splitAtFirst_first [of fenceOpen p "c @ fenceClose @ q" a rest] by simp
  then have le: "length (a @ fenceOpen) \<le> length (p @ fenceOpen @ c)" by simp
  from splitAtFirst_sound [OF s1] have "aiText = (a @ fenceOpen) @ rest" by simp
  then have "rest = drop (length (a @ fenceOpen)) aiText"
    by (metis append_eq_conv_conj)
  also have "aiText = (p @ fenceOpen @ c) @ (fenceClose @ q)" using t by simp
  also have "drop (length (a @ fenceOpen)) ((p @ fenceOpen @ c) @ (fenceClose @ q)) =
               drop (length (a @ fenceOpen)) (p @ fenceOpen @ c) @ (fenceClose @ q)"
    using le by (rule drop_append_le)
  finally have "rest = drop (length (a @ fenceOpen)) (p @ fenceOpen @ c) @ fenceClose @ q" .
  then have "splitAtFirst fenceClose rest \<noteq> None"
    using splitAtFirst_complete [of fenceClose "drop (length (a @ fenceOpen)) (p @ fenceOpen @ c)" q]
    by simp
  with s1 show "\<exists>captured. scenarioRegexExec aiText = Some captured"
    by (auto simp: scenarioRegexExec_def split: option.splits)
qed

lemma scenarioRegexExec_None_iff:
  "scenarioRegexExec aiText = None \<longleftrightarrow>
     \<not> (\<exists>before captured after. aiText = before @ fenceOpen @ captured @ fenceClose @ after)"
  using scenarioRegexExec_Some_iff [of aiText] by auto

section \<open>A step that created a session ends with a refresh\<close>

lemma runSteps_append:
  "runSteps w wal (xs @ ys) s =
     (case runSteps w wal xs s of
        None \<Rightarrow> None
      | Some (Inl e, s1) \<Rightarrow> Some (Inl e, s1)
      | Some (Inr u, s1) \<Rightarrow> runSteps w wal ys s1)"
proof (induction xs arbitrary: s)
  case Nil
  show ?case by simp
next
  case (Cons step xs)
  show ?case
    by (simp add: Cons.IH split: option.splits prod.splits sum.splits)
qed

lemma createdSession_emits:
  "createdSession s (emits es s) = (filter isAction es \<noteq> [])"
  by (simp add: createdSession_def emits_def)

lemma createdSession_after:
  assumes "continues s s1" and "continues (emit (Call (PostAction ep i a amt)) s1) s2"
  shows "createdSession s (emit e s2)"
proof -
  from continues_trace [OF assms(1)] obtain es0 where t1: "trace s1 = trace s @ es0" by blast
  from continues_trace [OF assms(2)] obtain es where
    "trace s2 = trace (emit (Call (PostAction ep i a amt)) s1) @ es" by blast
  with t1 have "trace (emit e s2) = trace s @ (es0 @ [Call (PostAction ep i a amt)] @ es @ [e])"
    by (simp add: emit_def)
  then show ?thesis by (simp add: createdSession_def)
qed

lemma executeStep_returns:
  assumes "executeStep w wal type integrationId finalAmount s = Some (Inr (), s')"
  shows "\<exists>s2. continues (emit (Call (PostAction (endpointOf type) integrationId (getAddress wal) finalAmount)) s) s2
            \<and> refreshEarnAgentData w (getAddress wal) (emit (Log (LogDone type integrationId)) s2)
                = (Inr (), s')"
proof -
  let ?s1 = "emit (Call (PostAction (endpointOf type) integrationId (getAddress wal) finalAmount)) s"
  from assms obtain transactions s2 where
    p: "processTransactions w wal transactions ?s1 = Some (Inr (), s2)" and
    r: "refreshEarnAgentData w (getAddress wal) (emit (Log (LogDone type integrationId)) s2) = (Inr (), s')"
    by (auto simp: executeStep_def endpointOf_def request_def
             split: option.splits prod.splits sum.splits)
  from processTransactions_continues [OF p] have "continues ?s1 s2" by simp
  with r show ?thesis by blast
qed

lemma runScenarioStep_executed:
  assumes "runScenarioStep w wal type integrationId amount s = Some (Inr (), s')"
    and "createdSession s s'"
  shows "\<exists>s1 finalAmount. continues s s1
           \<and> executeStep w wal type integrationId finalAmount s1 = Some (Inr (), s')"
proof -
  let ?s = "emit (Log (LogStep type integrationId amount)) s"
  have c0: "continues s ?s" by (rule continues_emit)
  show ?thesis
  proof (cases "truthy amount")
    case True
    with assms(1) have "executeStep w wal type integrationId amount ?s = Some (Inr (), s')"
      by (simp add: runScenarioStep_def)
    with c0 show ?thesis by blast
  next
    case False
    show ?thesis
    proof (cases "type = Some (JStr ''EXIT'')")
      case True
      let ?s1 = "emit (Call (PostYieldBalances integrationId (getAddress wal))) ?s"
      have c1: "continues s ?s1" using c0 continues_emit continues_trans by blast
      have skip: "\<not> createdSession s (emit (Log LogNoStaked) ?s1)"
        by (simp add: createdSession_def emit_def)
      from assms(1) False True obtain posResp where
        q: "w_yieldBalances w (trace ?s) integrationId (getAddress wal) = Some posResp"
        by (auto simp: runScenarioStep_def request_def Let_def split: option.splits)
      show ?thesis
      proof (cases "findStaked posResp")
        case None
        with assms(1) False True q have "s' = emit (Log LogNoStaked) ?s1"
          by (auto simp: runScenarioStep_def request_def Let_def)
        with skip assms(2) show ?thesis by simp
      next
        case (Some staked)
        show ?thesis
        proof (cases "le0 (parseFloat w (b_amount staked))")
          case l: True
          with assms(1) False True q Some have "s' = emit (Log LogNoStaked) ?s1"
            by (auto simp: runScenarioStep_def request_def Let_def)
          with skip assms(2) show ?thesis by simp
        next
          case l: False
          with assms(1) False True q Some
          have "executeStep w wal type integrationId (Some (JStr (b_amount staked))) ?s1
                  = Some (Inr (), s')"
            by (auto simp: runScenarioStep_def request_def Let_def)
          with c1 show ?thesis by blast
        qed
      qed
    next
      case ne: False
      let ?s1 = "emit (Call (GetYieldDetail integrationId)) ?s"
      from assms(1) False ne obtain details where
        q: "w_yieldDetail w (trace ?s) integrationId = Some details"
        by (auto simp: runScenarioStep_def request_def Let_def split: option.splits)
      let ?p = "idlePayload (getAddress wal) details"
      let ?s2 = "emit (Call (PostTokenBalances ?p)) ?s1"
      have c2: "continues s ?s2" using c0 continues_emit continues_trans by blast
      have skip: "\<not> createdSession s (emit (Log LogNoBalance) ?s2)"
        by (simp add: createdSession_def emit_def)
      from assms(1) False ne q obtain balResp where
        b: "w_tokenBalances w (trace ?s1) ?p = Some balResp"
        by (auto simp: runScenarioStep_def request_def Let_def split: option.splits)
      show ?thesis
      proof (cases "le0 (parseFloat w (firstAmount balResp))")
        case True
        with assms(1) False ne q b have "s' = emit (Log LogNoBalance) ?s2"
          by (auto simp: runScenarioStep_def request_def Let_def)
        with skip assms(2) show ?thesis by simp
      next
        case l: False
        with assms(1) False ne q b
        have "executeStep w wal type integrationId (Some (JStr (firstAmount balResp))) ?s2
                = Some (Inr (), s')"
          by (auto simp: runScenarioStep_def request_def Let_def)
        with c2 show ?thesis by blast
      qed
    qed
  qed
qed

lemma runScenarioStep_refreshes:
  assumes "runScenarioStep w wal type integrationId amount s = Some (Inr (), s')"
    and "createdSession s s'"
  shows "\<exists>s2. continues s s2 \<and> createdSession s s2
            \<and> refreshEarnAgentData w (getAddress wal) s2 = (Inr (), s')"
proof -
  from runScenarioStep_executed [OF assms] obtain s1 finalAmount where
    c1: "continues s s1" and
    e: "executeStep w wal type integrationId finalAmount s1 = Some (Inr (), s')" by blast
  from executeStep_returns [OF e] obtain s2 where
    c2: "continues (emit (Call (PostAction (endpointOf type) integrationId (getAddress wal) finalAmount)) s1) s2"
    and r: "refreshEarnAgentData w (getAddress wal) (emit (Log (LogDone type integrationId)) s2) = (Inr (), s')"
    by blast
  let ?s2 = "emit (Log (LogDone type integrationId)) s2"
  have "continues s ?s2"
    using c1 c2 continues_emit continues_emit_left continues_trans by blast
  moreover have "createdSession s ?s2" using c1 c2 by (rule createdSession_after)
  ultimately show ?thesis using r by blast
qed

lemma fetchEarningPositionsLoop_data:
  "fetchEarningPositionsLoop w ys address i positions s = (r, s') \<Longrightarrow>
   fetchEarningPositionsLoop w ys address i positions (s\<lparr>earnAgentData := d\<rparr>)
     = (r, s'\<lparr>earnAgentData := d\<rparr>)"
proof (induction w ys address i positions s rule: fetchEarningPositionsLoop.induct)
  case (1 w ys address i positions s)
  let ?payload = "map (\<lambda>y. (address, y_id y)) (take 15 (drop i ys))"
  let ?sd = "s\<lparr>earnAgentData := d\<rparr>"
  show ?case
  proof (cases "i < length ys")
    case False
    with "1.prems" show ?thesis
      by (subst fetchEarningPositionsLoop.simps, subst (asm) fetchEarningPositionsLoop.simps) auto
  next
    case True
    show ?thesis
    proof (cases "w_yieldsBalances w (trace s) ?payload")
      case None
      with True "1.prems" show ?thesis
        by (subst fetchEarningPositionsLoop.simps, subst (asm) fetchEarningPositionsLoop.simps)
           (auto simp: request_def emit_def)
    next
      case (Some resp)
      let ?s1 = "emit (Call (PostYieldsBalances ?payload)) s"
      have rq: "request (PostYieldsBalances ?payload) (w_yieldsBalances w (trace s) ?payload) s
                  = (Inr resp, ?s1)"
        using Some by (simp add: request_def)
      have rec: "fetchEarningPositionsLoop w ys address (i + 15)
                   (positions @ stakedPositions w resp) ?s1 = (r, s')"
        using "1.prems" True rq by (subst (asm) fetchEarningPositionsLoop.simps) simp
      from "1.IH" [OF True rq [symmetric] refl rec]
      have "fetchEarningPositionsLoop w ys address (i + 15)
               (positions @ stakedPositions w resp) (?s1\<lparr>earnAgentData := d\<rparr>)
              = (r, s'\<lparr>earnAgentData := d\<rparr>)" .
      moreover have "?s1\<lparr>earnAgentData := d\<rparr> = emit (Call (PostYieldsBalances ?payload)) ?sd"
        by (simp add: emit_def)
      ultimately show ?thesis
        using True Some by (subst fetchEarningPositionsLoop.simps) (simp add: request_def)
    qed
  qed
qed

lemma fetchEarningPositionsLoop_keeps_data:
  "earnAgentData (snd (fetchEarningPositionsLoop w ys address i positions s)) = earnAgentData s"
proof (induction w ys address i positions s rule: fetchEarningPositionsLoop.induct)
  case (1 w ys address i positions s)
  let ?payload = "map (\<lambda>y. (address, y_id y)) (take 15 (drop i ys))"
  show ?case
  proof (cases "i < length ys")
    case False
    then show ?thesis by (subst fetchEarningPositionsLoop.simps) simp
  next
    case True
    show ?thesis
    proof (cases "w_yieldsBalances w (trace s) ?payload")
      case None
      with True show ?thesis
        by (subst fetchEarningPositionsLoop.simps) (simp add: request_def emit_def)
    next
      case (Some resp)
      have rq: "request (PostYieldsBalances ?payload) (w_yieldsBalances w (trace s) ?payload) s
                  = (Inr resp, emit (Call (PostYieldsBalances ?payload)) s)"
        using Some by (simp add: request_def)
      from 1 [OF True rq [symmetric] refl] True rq show ?thesis
        by (subst fetchEarningPositionsLoop.simps) (simp add: emit_def)
    qed
  qed
qed

text \<open>After a refresh that succeeded, the three fields are the ones just fetched.\<close>

lemma refreshEarnAgentData_replaces:
  assumes "refreshEarnAgentData w address s = (Inr (), s')"
  shows "refreshEarnAgentData w address (s\<lparr>earnAgentData := d\<rparr>) = (Inr (), s')"
proof -
  let ?sd = "s\<lparr>earnAgentData := d\<rparr>"
  let ?s0 = "emit (Log LogRefreshing) s"
  from assms obtain allYields where y: "w_listYields w (trace ?s0) = Some allYields"
    by (auto simp: refreshEarnAgentData_def fetchAllYields_def request_def split: option.splits)
  let ?ys = "filterSortYields allYields"
  let ?s1 = "emit (Call GetYields) ?s0"
  let ?D1 = "(earnAgentData s)\<lparr>yields := ?ys\<rparr>"
  let ?d1 = "d\<lparr>yields := ?ys\<rparr>"
  obtain r2 t2 where f: "fetchEarningPositionsLoop w ?ys address 0 [] ?s1 = (r2, t2)"
    by (cases "fetchEarningPositionsLoop w ?ys address 0 [] ?s1")
  have k2: "earnAgentData t2 = earnAgentData s"
    using fetchEarningPositionsLoop_keeps_data [of w ?ys address 0 "[]" ?s1] f
    by (simp add: emit_def)
  have fD: "fetchEarningPositions w ?ys address (?s1\<lparr>earnAgentData := ?D1\<rparr>)
              = (r2, t2\<lparr>earnAgentData := ?D1\<rparr>)"
    using fetchEarningPositionsLoop_data [OF f] by (simp add: fetchEarningPositions_def)
  have fd: "fetchEarningPositions w ?ys address (?s1\<lparr>earnAgentData := ?d1\<rparr>)
              = (r2, t2\<lparr>earnAgentData := ?d1\<rparr>)"
    using fetchEarningPositionsLoop_data [OF f] by (simp add: fetchEarningPositions_def)
  have e1: "?s1\<lparr>earnAgentData := (earnAgentData ?s1)\<lparr>yields := ?ys\<rparr>\<rparr> = ?s1\<lparr>earnAgentData := ?D1\<rparr>"
    by (simp add: emit_def)
  let ?sd1 = "emit (Call GetYields) (emit (Log LogRefreshing) ?sd)"
  have e1d: "?sd1\<lparr>earnAgentData := (earnAgentData ?sd1)\<lparr>yields := ?ys\<rparr>\<rparr> = ?s1\<lparr>earnAgentData := ?d1\<rparr>"
    by (simp add: emit_def)
  have yd: "w_listYields w (trace (emit (Log LogRefreshing) ?sd)) = Some allYields"
    using y by (simp add: emit_def)
  from assms y fD e1 obtain positions where r2: "r2 = Inr positions"
    by (cases r2) (auto simp: refreshEarnAgentData_def fetchAllYields_def request_def)
  let ?p = "balancesPayload address (tokenAddresses ?ys)"
  from assms y fD e1 r2 obtain resp where
    b: "w_tokenBalances w (trace t2) ?p = Some resp"
    by (auto simp: refreshEarnAgentData_def fetchAllYields_def request_def fetchUserBalances_def
             split: option.splits)
  let ?final = "\<lambda>x. emit (Log LogRefreshed)
      ((emit (Call (PostTokenBalances ?p)) t2)\<lparr>earnAgentData :=
          x\<lparr>yields := ?ys, earningPositions := positions, idleTokenBalances := balancesRecord w resp\<rparr>\<rparr>)"
  have RD: "refreshEarnAgentData w address s = (Inr (), ?final (earnAgentData s))"
    using y fD e1 r2 b
    by (simp add: refreshEarnAgentData_def fetchAllYields_def request_def fetchUserBalances_def
        emit_def)
  have Rd: "refreshEarnAgentData w address ?sd = (Inr (), ?final d)"
    using yd fd e1d r2 b
    by (simp add: refreshEarnAgentData_def fetchAllYields_def request_def fetchUserBalances_def
        emit_def)
  have "?final d = ?final (earnAgentData s)"
    by (cases d, cases "earnAgentData s") (simp add: emit_def)
  with RD Rd assms show ?thesis by simp
qed

section \<open>Scenarios in the world of the examples\<close>

lemmas scenario_defs =
  runAiScenario_def parseOpFromCodeBlock_def scenarioRegexExec_def fenceOpen_def fenceClose_def
  trim_def isSpace_def opSteps_def handleChat_def earnAgentIntervalCheck_def intervalCycle_def

lemma example_regex_hello: "scenarioRegexExec ''Hello, nothing to do.'' = None"
  by (simp add: scenarioRegexExec_def fenceOpen_def fenceClose_def)




lemma example_regex_exit:
  "scenarioRegexExec (''```json'' @ docExit @ ''```'') = Some docExit"
  by (simp add: scenarioRegexExec_def fenceOpen_def fenceClose_def docExit_def)



lemma example_enter_skipped:
  "runSteps exampleWorld exampleWallet [stepEnter]
     ((emits (exitEvents None) initialState)\<lparr>earnAgentData := refreshedData\<rparr>) =
   Some (Inr (), (emits (exitEvents None @ enterSkipEvents) initialState)\<lparr>earnAgentData := refreshedData\<rparr>)"
  by (simp add: run_defs example_defs stepEnter_def enterSkipEvents_def exitEvents_def Let_def)




section \<open>Properties of the transaction lifecycle\<close>

text \<open>
  C1. A transaction that was constructed, signed and submitted is polled: while the answers
  are neither CONFIRMED nor FAILED, each status query is followed by a delay of 2000 ms and
  the next query; the first answer that is CONFIRMED or FAILED, or the first query that
  fails, ends the polling, one console line is written (for a failed query, the line of the
  unknown status), no further status query is made, nothing is thrown, and the batch goes on
  with the next transaction.
\<close>

theorem polling_ends_at_first_terminal_answer:
  assumes "tx_status tx \<noteq> ''SKIPPED''"
    and "constructLoop w (tx_id tx) 0 (emit (Log (LogTx (tx_type tx))) s) = (Some u, s1)"
    and "signTransaction wal (unsignedTransaction u) = Some signedTx"
    and "w_submit w (trace s1 @ [Call (SignTransaction (unsignedTransaction u))]) (tx_id tx) signedTx
           = Some submitResult"
    and "s2 = emits [Call (SignTransaction (unsignedTransaction u)),
                     Call (PostSubmit (tx_id tx) signedTx), Log (LogSubmitted submitResult)] s1"
    and "\<forall>j<n. isPending (w_txStatus w (trace s2 @ pendingRounds (tx_id tx) j) (tx_id tx))"
    and "\<not> isPending (w_txStatus w (trace s2 @ pendingRounds (tx_id tx) n) (tx_id tx))"
    and "s3 = emits (pendingRounds (tx_id tx) n @
                [Call (GetStatus (tx_id tx)),
                 Log (closingLine (w_txStatus w (trace s2 @ pendingRounds (tx_id tx) n) (tx_id tx)))]) s2"
  shows "pollStatus w (tx_id tx) s2 = Some s3
       \<and> processTransactions w wal (tx # txs) s = processTransactions w wal txs s3"
proof -
  have p: "pollStatus w (tx_id tx) s2 = Some s3"
    using pollStatus_rounds [OF assms(6) assms(7)] assms(8) by simp
  have e: "emit (Log (LogSubmitted submitResult))
             (emit (Call (PostSubmit (tx_id tx) signedTx))
                (emit (Call (SignTransaction (unsignedTransaction u))) s1)) = s2"
    using assms(5) by (simp add: emit_emits emits_emits)
  have "processTransactions w wal (tx # txs) s = processTransactions w wal txs s3"
    using assms(1-4) p e
    by (simp add: request_def trace_emits emit_emits emits_emits)
  with p show ?thesis by simp
qed

theorem polling_ends_at_first_terminal_answer_witness:
  "processTransactions exampleWorld exampleWallet [exampleTx ''tx-1''] initialState =
     Some (Inr (),
       emits [Log (LogTx ''STAKE''), Call (PatchTransaction ''tx-1''),
              Call (SignTransaction ''tx-1''), Call (PostSubmit ''tx-1'' ''signed tx-1''),
              Log (LogSubmitted ''ok''),
              Call (GetStatus ''tx-1''), Log LogPending, Delay 2000,
              Call (GetStatus ''tx-1''), Log LogPending, Delay 2000,
              Call (GetStatus ''tx-1''), Log (LogConfirmed (Some ''url''))] initialState)
   \<and> processTransactions exampleWorld exampleWallet [exampleTx ''tx-u'', exampleTx ''tx-1'']
       initialState =
     Some (Inr (),
       emits [Log (LogTx ''STAKE''), Call (PatchTransaction ''tx-u''),
              Call (SignTransaction ''tx-u''), Call (PostSubmit ''tx-u'' ''signed tx-u''),
              Log (LogSubmitted ''ok''),
              Call (GetStatus ''tx-u''), Log LogNoStatus,
              Log (LogTx ''STAKE''), Call (PatchTransaction ''tx-1''),
              Call (SignTransaction ''tx-1''), Call (PostSubmit ''tx-1'' ''signed tx-1''),
              Log (LogSubmitted ''ok''),
              Call (GetStatus ''tx-1''), Log LogPending, Delay 2000,
              Call (GetStatus ''tx-1''), Log LogPending, Delay 2000,
              Call (GetStatus ''tx-1''), Log (LogConfirmed (Some ''url''))] initialState)"
proof -
  \<comment> \<open>tx-u: the first status query fails\<close>
  let ?txu = "exampleTx ''tx-u''"
  let ?uu = "\<lparr>unsignedTransaction = ''tx-u''\<rparr>"
  let ?t1 = "emits [Log (LogTx ''STAKE''), Call (PatchTransaction ''tx-u'')] initialState"
  let ?t2 = "emits [Call (SignTransaction ''tx-u''), Call (PostSubmit ''tx-u'' ''signed tx-u''),
                    Log (LogSubmitted ''ok'')] ?t1"
  have k1: "tx_status ?txu \<noteq> ''SKIPPED''"
    by (simp add: exampleTx_def)
  have k2: "constructLoop exampleWorld (tx_id ?txu) 0 (emit (Log (LogTx (tx_type ?txu))) initialState)
              = (Some ?uu, ?t1)"
    by (simp add: constructLoop.simps exampleWorld_def exampleTx_def emit_def emits_def)
  have k3: "signTransaction exampleWallet (unsignedTransaction ?uu) = Some ''signed tx-u''"
    by (simp add: exampleWallet_def)
  have k4: "w_submit exampleWorld (trace ?t1 @ [Call (SignTransaction (unsignedTransaction ?uu))])
              (tx_id ?txu) ''signed tx-u'' = Some ''ok''"
    by (simp add: exampleWorld_def exampleTx_def)
  have k5: "?t2 = emits [Call (SignTransaction (unsignedTransaction ?uu)),
                     Call (PostSubmit (tx_id ?txu) ''signed tx-u''), Log (LogSubmitted ''ok'')] ?t1"
    by (simp add: exampleTx_def)
  have k6: "\<forall>j<0. isPending (w_txStatus exampleWorld (trace ?t2 @ pendingRounds (tx_id ?txu) j) (tx_id ?txu))"
    by simp
  have k7: "\<not> isPending (w_txStatus exampleWorld (trace ?t2 @ pendingRounds (tx_id ?txu) 0) (tx_id ?txu))"
    by (simp add: exampleWorld_def exampleTx_def isPending_def)
  have kc: "closingLine (w_txStatus exampleWorld (trace ?t2 @ pendingRounds (tx_id ?txu) 0) (tx_id ?txu))
             = LogNoStatus"
    by (simp add: exampleWorld_def exampleTx_def closingLine_def)
  have ku: "processTransactions exampleWorld exampleWallet [?txu, exampleTx ''tx-1''] initialState =
      processTransactions exampleWorld exampleWallet [exampleTx ''tx-1'']
        (emits (pendingRounds (tx_id ?txu) 0 @ [Call (GetStatus (tx_id ?txu)),
           Log (closingLine (w_txStatus exampleWorld (trace ?t2 @ pendingRounds (tx_id ?txu) 0) (tx_id ?txu)))]) ?t2)"
    using polling_ends_at_first_terminal_answer
      [OF k1 k2 k3 k4 k5 k6 k7 refl, of "[exampleTx ''tx-1'']"]
    by blast
  have unknown: "processTransactions exampleWorld exampleWallet [?txu, exampleTx ''tx-1''] initialState =
     Some (Inr (),
       emits [Log (LogTx ''STAKE''), Call (PatchTransaction ''tx-u''),
              Call (SignTransaction ''tx-u''), Call (PostSubmit ''tx-u'' ''signed tx-u''),
              Log (LogSubmitted ''ok''),
              Call (GetStatus ''tx-u''), Log LogNoStatus,
              Log (LogTx ''STAKE''), Call (PatchTransaction ''tx-1''),
              Call (SignTransaction ''tx-1''), Call (PostSubmit ''tx-1'' ''signed tx-1''),
              Log (LogSubmitted ''ok''),
              Call (GetStatus ''tx-1''), Log LogPending, Delay 2000,
              Call (GetStatus ''tx-1''), Log LogPending, Delay 2000,
              Call (GetStatus ''tx-1''), Log (LogConfirmed (Some ''url''))] initialState)"
    unfolding ku kc
    by (simp add: constructLoop.simps pollStatus.simps exampleWorld_def exampleWallet_def
        exampleTx_def initialState_def emit_def emits_def request_def pendingRounds_def)
  \<comment> \<open>tx-1: PENDING twice, then CONFIRMED\<close>
  let ?tx = "exampleTx ''tx-1''"
  let ?u = "\<lparr>unsignedTransaction = ''tx-1''\<rparr>"
  let ?s1 = "emits [Log (LogTx ''STAKE''), Call (PatchTransaction ''tx-1'')] initialState"
  let ?s2 = "emits [Call (SignTransaction ''tx-1''), Call (PostSubmit ''tx-1'' ''signed tx-1''),
                    Log (LogSubmitted ''ok'')] ?s1"
  have h1: "tx_status ?tx \<noteq> ''SKIPPED''"
    by (simp add: exampleTx_def)
  have h2: "constructLoop exampleWorld (tx_id ?tx) 0 (emit (Log (LogTx (tx_type ?tx))) initialState)
              = (Some ?u, ?s1)"
    by (simp add: constructLoop.simps exampleWorld_def exampleTx_def emit_def emits_def)
  have h3: "signTransaction exampleWallet (unsignedTransaction ?u) = Some ''signed tx-1''"
    by (simp add: exampleWallet_def)
  have h4: "w_submit exampleWorld (trace ?s1 @ [Call (SignTransaction (unsignedTransaction ?u))])
              (tx_id ?tx) ''signed tx-1'' = Some ''ok''"
    by (simp add: exampleWorld_def exampleTx_def)
  have h5: "?s2 = emits [Call (SignTransaction (unsignedTransaction ?u)),
                     Call (PostSubmit (tx_id ?tx) ''signed tx-1''), Log (LogSubmitted ''ok'')] ?s1"
    by (simp add: exampleTx_def)
  have h6: "\<forall>j<2. isPending (w_txStatus exampleWorld (trace ?s2 @ pendingRounds (tx_id ?tx) j) (tx_id ?tx))"
    by (simp add: exampleWorld_def exampleTx_def isPending_def pendingRounds_def emits_def
        initialState_def less_Suc_eq numeral_2_eq_2)
  have h7: "\<not> isPending (w_txStatus exampleWorld (trace ?s2 @ pendingRounds (tx_id ?tx) 2) (tx_id ?tx))"
    by (simp add: exampleWorld_def exampleTx_def isPending_def pendingRounds_2 emits_def
        initialState_def)
  have c: "closingLine (w_txStatus exampleWorld (trace ?s2 @ pendingRounds (tx_id ?tx) 2) (tx_id ?tx))
             = LogConfirmed (Some ''url'')"
    by (simp add: exampleWorld_def exampleTx_def closingLine_def pendingRounds_2 emits_def
        initialState_def)
  have r: "processTransactions exampleWorld exampleWallet [?tx] initialState =
      processTransactions exampleWorld exampleWallet []
        (emits (pendingRounds (tx_id ?tx) 2 @ [Call (GetStatus (tx_id ?tx)),
           Log (closingLine (w_txStatus exampleWorld (trace ?s2 @ pendingRounds (tx_id ?tx) 2) (tx_id ?tx)))]) ?s2)"
    using polling_ends_at_first_terminal_answer [OF h1 h2 h3 h4 h5 h6 h7 refl, of "[]"]
    by blast
  have confirmed: "processTransactions exampleWorld exampleWallet [?tx] initialState =
     Some (Inr (),
       emits [Log (LogTx ''STAKE''), Call (PatchTransaction ''tx-1''),
              Call (SignTransaction ''tx-1''), Call (PostSubmit ''tx-1'' ''signed tx-1''),
              Log (LogSubmitted ''ok''),
              Call (GetStatus ''tx-1''), Log LogPending, Delay 2000,
              Call (GetStatus ''tx-1''), Log LogPending, Delay 2000,
              Call (GetStatus ''tx-1''), Log (LogConfirmed (Some ''url''))] initialState)"
    unfolding r c by (simp add: exampleTx_def pendingRounds_2 emits_def)
  from confirmed unknown show ?thesis by blast
qed

text \<open>
  C2. The construction of a transaction is called at most 3 times: by one run of the
  construction loop, and so, in a batch that ends, at most 3 times per transaction that is
  not SKIPPED. When the three attempts fail, each followed by a delay of 1000 ms, the
  transaction is given up with one console line, without any signing or submission, and the
  batch goes on with the next transaction. When the first attempt fails and the second
  succeeds, the two calls are separated by one console line and a delay of 1000 ms.
\<close>

theorem construction_retried_three_times_then_abandoned:
  "patchCount x (snd (constructLoop w txid 0 s)) \<le> patchCount x s + 3
   \<and> (\<forall>r. processTransactions w wal txs s = Some r \<longrightarrow>
         patchCount x (snd r) \<le> patchCount x s +
           3 * length (filter (\<lambda>tx. tx_id tx = x \<and> tx_status tx \<noteq> ''SKIPPED'') txs))
   \<and> (tx_status tx \<noteq> ''SKIPPED''
        \<and> w_construct w (trace s @ [Log (LogTx (tx_type tx))]) (tx_id tx) = None
        \<and> w_construct w (trace s @ [Log (LogTx (tx_type tx)),
               Call (PatchTransaction (tx_id tx)), Log (LogRetry 1), Delay 1000]) (tx_id tx) = None
        \<and> w_construct w (trace s @ [Log (LogTx (tx_type tx)),
               Call (PatchTransaction (tx_id tx)), Log (LogRetry 1), Delay 1000,
               Call (PatchTransaction (tx_id tx)), Log (LogRetry 2), Delay 1000]) (tx_id tx) = None
      \<longrightarrow> processTransactions w wal (tx # rest) s =
            processTransactions w wal rest
              (emits [Log (LogTx (tx_type tx)),
                      Call (PatchTransaction (tx_id tx)), Log (LogRetry 1), Delay 1000,
                      Call (PatchTransaction (tx_id tx)), Log (LogRetry 2), Delay 1000,
                      Call (PatchTransaction (tx_id tx)), Log (LogRetry 3), Delay 1000,
                      Log LogCannotConstruct] s))
   \<and> (\<forall>u. w_construct w (trace s) txid = None
          \<and> w_construct w (trace s @ [Call (PatchTransaction txid), Log (LogRetry 1), Delay 1000])
               txid = Some u
      \<longrightarrow> constructLoop w txid 0 s =
            (Some u, emits [Call (PatchTransaction txid), Log (LogRetry 1), Delay 1000,
                            Call (PatchTransaction txid)] s))"
proof (intro conjI allI impI)
  show "patchCount x (snd (constructLoop w txid 0 s)) \<le> patchCount x s + 3"
    using constructLoop_patchCount [of x w txid 0 s] by (simp split: if_splits)
next
  fix u
  assume a: "w_construct w (trace s) txid = None
          \<and> w_construct w (trace s @ [Call (PatchTransaction txid), Log (LogRetry 1), Delay 1000])
               txid = Some u"
  have f1: "failedAttempts txid 0 1 = [Call (PatchTransaction txid), Log (LogRetry 1), Delay 1000]"
    using failedAttempts_Suc [of txid 0 0] by (simp add: failedAttempts_0)
  have "constructLoop w txid 0 s =
          (Some u, emits (failedAttempts txid 0 1 @ [Call (PatchTransaction txid)]) s)"
    using a by (intro constructLoop_success) (simp_all add: failedAttempts_Suc failedAttempts_0)
  then show "constructLoop w txid 0 s =
            (Some u, emits [Call (PatchTransaction txid), Log (LogRetry 1), Delay 1000,
                            Call (PatchTransaction txid)] s)"
    by (simp add: failedAttempts_Suc failedAttempts_0)
next
  fix r assume "processTransactions w wal txs s = Some r"
  then show "patchCount x (snd r) \<le> patchCount x s +
           3 * length (filter (\<lambda>tx. tx_id tx = x \<and> tx_status tx \<noteq> ''SKIPPED'') txs)"
    by (rule processTransactions_patchCount)
next
  let ?s0 = "emit (Log (LogTx (tx_type tx))) s"
  assume a: "tx_status tx \<noteq> ''SKIPPED''
        \<and> w_construct w (trace s @ [Log (LogTx (tx_type tx))]) (tx_id tx) = None
        \<and> w_construct w (trace s @ [Log (LogTx (tx_type tx)),
               Call (PatchTransaction (tx_id tx)), Log (LogRetry 1), Delay 1000]) (tx_id tx) = None
        \<and> w_construct w (trace s @ [Log (LogTx (tx_type tx)),
               Call (PatchTransaction (tx_id tx)), Log (LogRetry 1), Delay 1000,
               Call (PatchTransaction (tx_id tx)), Log (LogRetry 2), Delay 1000]) (tx_id tx) = None"
  have f3: "failedAttempts (tx_id tx) 0 3 =
      [Call (PatchTransaction (tx_id tx)), Log (LogRetry 1), Delay 1000,
       Call (PatchTransaction (tx_id tx)), Log (LogRetry 2), Delay 1000,
       Call (PatchTransaction (tx_id tx)), Log (LogRetry 3), Delay 1000]"
    by (simp add: numeral_3_eq_3 failedAttempts_Suc failedAttempts_0)
  have all: "\<forall>j<3. w_construct w (trace ?s0 @ failedAttempts (tx_id tx) 0 j) (tx_id tx) = None"
  proof (intro allI impI)
    fix j :: nat assume "j < 3"
    then consider "j = 0" | "j = 1" | "j = 2" by linarith
    then show "w_construct w (trace ?s0 @ failedAttempts (tx_id tx) 0 j) (tx_id tx) = None"
      using a
      by cases (simp_all add: numeral_2_eq_2 failedAttempts_Suc failedAttempts_0 emit_def)
  qed
  have "constructLoop w (tx_id tx) 0 ?s0 = (None, emits (failedAttempts (tx_id tx) 0 3) ?s0)"
    using constructLoop_exhausted [of 0 3 w ?s0 "tx_id tx"] all by simp
  with a show "processTransactions w wal (tx # rest) s =
            processTransactions w wal rest
              (emits [Log (LogTx (tx_type tx)),
                      Call (PatchTransaction (tx_id tx)), Log (LogRetry 1), Delay 1000,
                      Call (PatchTransaction (tx_id tx)), Log (LogRetry 2), Delay 1000,
                      Call (PatchTransaction (tx_id tx)), Log (LogRetry 3), Delay 1000,
                      Log LogCannotConstruct] s)"
    by (simp add: f3 emit_emits emits_emits)
qed

theorem construction_retried_three_times_then_abandoned_witness:
  "processTransactions exampleWorld exampleWallet [exampleTx ''tx-a'', exampleTx ''tx-1''] initialState =
     Some (Inr (),
       emits [Log (LogTx ''STAKE''),
              Call (PatchTransaction ''tx-a''), Log (LogRetry 1), Delay 1000,
              Call (PatchTransaction ''tx-a''), Log (LogRetry 2), Delay 1000,
              Call (PatchTransaction ''tx-a''), Log (LogRetry 3), Delay 1000,
              Log LogCannotConstruct,
              Log (LogTx ''STAKE''), Call (PatchTransaction ''tx-1''),
              Call (SignTransaction ''tx-1''), Call (PostSubmit ''tx-1'' ''signed tx-1''),
              Log (LogSubmitted ''ok''),
              Call (GetStatus ''tx-1''), Log LogPending, Delay 2000,
              Call (GetStatus ''tx-1''), Log LogPending, Delay 2000,
              Call (GetStatus ''tx-1''), Log (LogConfirmed (Some ''url''))] initialState)
   \<and> patchCount ''tx-a'' (snd (constructLoop exampleWorld ''tx-a'' 0 initialState)) \<le> 3
   \<and> patchCount ''tx-a''
        (snd (the (processTransactions exampleWorld exampleWallet
                     [exampleTx ''tx-a'', exampleTx ''tx-1''] initialState))) \<le> 3
   \<and> constructLoop exampleWorld ''tx-r'' 0 initialState =
       (Some \<lparr>unsignedTransaction = ''tx-r''\<rparr>,
        emits [Call (PatchTransaction ''tx-r''), Log (LogRetry 1), Delay 1000,
               Call (PatchTransaction ''tx-r'')] initialState)"
proof -
  have hr: "w_construct exampleWorld (trace initialState) ''tx-r'' = None
          \<and> w_construct exampleWorld
               (trace initialState @ [Call (PatchTransaction ''tx-r''), Log (LogRetry 1), Delay 1000])
               ''tx-r'' = Some \<lparr>unsignedTransaction = ''tx-r''\<rparr>"
    by (simp add: exampleWorld_def initialState_def)
  have retried: "constructLoop exampleWorld ''tx-r'' 0 initialState =
       (Some \<lparr>unsignedTransaction = ''tx-r''\<rparr>,
        emits [Call (PatchTransaction ''tx-r''), Log (LogRetry 1), Delay 1000,
               Call (PatchTransaction ''tx-r'')] initialState)"
    using construction_retried_three_times_then_abandoned
      [where w = exampleWorld and txid = "''tx-r''" and s = initialState] hr
    by blast
  let ?tx = "exampleTx ''tx-a''"
  let ?txs = "[exampleTx ''tx-a'', exampleTx ''tx-1'']"
  note inst = construction_retried_three_times_then_abandoned
    [where x = "''tx-a''" and w = exampleWorld and wal = exampleWallet and txid = "''tx-a''"
       and s = initialState and txs = ?txs and tx = ?tx and rest = "[exampleTx ''tx-1'']"]
  have h: "tx_status ?tx \<noteq> ''SKIPPED''
        \<and> w_construct exampleWorld (trace initialState @ [Log (LogTx (tx_type ?tx))]) (tx_id ?tx) = None
        \<and> w_construct exampleWorld (trace initialState @ [Log (LogTx (tx_type ?tx)),
               Call (PatchTransaction (tx_id ?tx)), Log (LogRetry 1), Delay 1000]) (tx_id ?tx) = None
        \<and> w_construct exampleWorld (trace initialState @ [Log (LogTx (tx_type ?tx)),
               Call (PatchTransaction (tx_id ?tx)), Log (LogRetry 1), Delay 1000,
               Call (PatchTransaction (tx_id ?tx)), Log (LogRetry 2), Delay 1000]) (tx_id ?tx) = None"
    by (simp add: exampleWorld_def exampleTx_def)
  have abandoned: "processTransactions exampleWorld exampleWallet ?txs initialState =
      processTransactions exampleWorld exampleWallet [exampleTx ''tx-1'']
        (emits [Log (LogTx (tx_type ?tx)),
                Call (PatchTransaction (tx_id ?tx)), Log (LogRetry 1), Delay 1000,
                Call (PatchTransaction (tx_id ?tx)), Log (LogRetry 2), Delay 1000,
                Call (PatchTransaction (tx_id ?tx)), Log (LogRetry 3), Delay 1000,
                Log LogCannotConstruct] initialState)"
    using inst h by blast
  have first: "patchCount ''tx-a'' (snd (constructLoop exampleWorld ''tx-a'' 0 initialState))
                 \<le> patchCount ''tx-a'' initialState + 3"
    using inst by blast
  have bound: "\<forall>r. processTransactions exampleWorld exampleWallet ?txs initialState = Some r \<longrightarrow>
         patchCount ''tx-a'' (snd r) \<le> patchCount ''tx-a'' initialState +
           3 * length (filter (\<lambda>tx. tx_id tx = ''tx-a'' \<and> tx_status tx \<noteq> ''SKIPPED'') ?txs)"
    using inst by blast
  have run: "processTransactions exampleWorld exampleWallet [exampleTx ''tx-1'']
        (emits [Log (LogTx (tx_type ?tx)),
                Call (PatchTransaction (tx_id ?tx)), Log (LogRetry 1), Delay 1000,
                Call (PatchTransaction (tx_id ?tx)), Log (LogRetry 2), Delay 1000,
                Call (PatchTransaction (tx_id ?tx)), Log (LogRetry 3), Delay 1000,
                Log LogCannotConstruct] initialState) =
     Some (Inr (),
       emits [Log (LogTx ''STAKE''),
              Call (PatchTransaction ''tx-a''), Log (LogRetry 1), Delay 1000,
              Call (PatchTransaction ''tx-a''), Log (LogRetry 2), Delay 1000,
              Call (PatchTransaction ''tx-a''), Log (LogRetry 3), Delay 1000,
              Log LogCannotConstruct,
              Log (LogTx ''STAKE''), Call (PatchTransaction ''tx-1''),
              Call (SignTransaction ''tx-1''), Call (PostSubmit ''tx-1'' ''signed tx-1''),
              Log (LogSubmitted ''ok''),
              Call (GetStatus ''tx-1''), Log LogPending, Delay 2000,
              Call (GetStatus ''tx-1''), Log LogPending, Delay 2000,
              Call (GetStatus ''tx-1''), Log (LogConfirmed (Some ''url''))] initialState)"
    by (simp add: constructLoop.simps pollStatus.simps exampleWorld_def exampleWallet_def
        exampleTx_def initialState_def emit_def emits_def request_def)
  have p0: "patchCount ''tx-a'' initialState = 0"
    by (simp add: patchCount_def initialState_def)
  have n1: "length (filter (\<lambda>tx. tx_id tx = ''tx-a'' \<and> tx_status tx \<noteq> ''SKIPPED'') ?txs) = 1"
    by (simp add: exampleTx_def)
  have final: "\<exists>r. processTransactions exampleWorld exampleWallet ?txs initialState = Some r"
    using abandoned run by simp
  then have "patchCount ''tx-a''
        (snd (the (processTransactions exampleWorld exampleWallet ?txs initialState))) \<le> 3"
    using bound p0 n1 by auto
  then show ?thesis
    using abandoned run first retried by (simp only: p0) simp
qed

text \<open>
  C3. When the transactions before transaction k were processed and transaction k is
  constructed, a failure of its signing, or of its submission, ends the batch with that
  error: the trace ends with the failed call, whatever transactions follow k in the batch.
\<close>

theorem signing_or_submission_failure_aborts_batch:
  assumes "processTransactions w wal pre s = Some (Inr (), s0)"
    and "tx_status tx \<noteq> ''SKIPPED''"
    and "constructLoop w (tx_id tx) 0 (emit (Log (LogTx (tx_type tx))) s0) = (Some u, s1)"
  shows "(signTransaction wal (unsignedTransaction u) = None \<longrightarrow>
            processTransactions w wal (pre @ tx # post) s =
              Some (Inl (SignerFailed (unsignedTransaction u)),
                    emits [Call (SignTransaction (unsignedTransaction u))] s1))
       \<and> (\<forall>signedTx.
            signTransaction wal (unsignedTransaction u) = Some signedTx
            \<and> w_submit w (trace s1 @ [Call (SignTransaction (unsignedTransaction u))])
                 (tx_id tx) signedTx = None \<longrightarrow>
            processTransactions w wal (pre @ tx # post) s =
              Some (Inl (RequestFailed (PostSubmit (tx_id tx) signedTx)),
                    emits [Call (SignTransaction (unsignedTransaction u)),
                           Call (PostSubmit (tx_id tx) signedTx)] s1))"
  using assms
  by (simp add: processTransactions_append request_def emit_emits emits_emits trace_emits)

theorem signing_or_submission_failure_aborts_batch_witness:
  "processTransactions exampleWorld exampleWallet
      [exampleTx ''tx-1'', exampleTx ''tx-g'', exampleTx ''tx-2''] initialState =
     Some (Inl (SignerFailed ''tx-g''),
       emits [Log (LogTx ''STAKE''), Call (PatchTransaction ''tx-1''),
              Call (SignTransaction ''tx-1''), Call (PostSubmit ''tx-1'' ''signed tx-1''),
              Log (LogSubmitted ''ok''),
              Call (GetStatus ''tx-1''), Log LogPending, Delay 2000,
              Call (GetStatus ''tx-1''), Log LogPending, Delay 2000,
              Call (GetStatus ''tx-1''), Log (LogConfirmed (Some ''url'')),
              Log (LogTx ''STAKE''), Call (PatchTransaction ''tx-g''),
              Call (SignTransaction ''tx-g'')] initialState)
   \<and> processTransactions exampleWorld exampleWallet
      [exampleTx ''tx-s'', exampleTx ''tx-2''] initialState =
     Some (Inl (RequestFailed (PostSubmit ''tx-s'' ''signed tx-s'')),
       emits [Log (LogTx ''STAKE''), Call (PatchTransaction ''tx-s''),
              Call (SignTransaction ''tx-s''),
              Call (PostSubmit ''tx-s'' ''signed tx-s'')] initialState)"
proof -
  let ?s0 = "emits [Log (LogTx ''STAKE''), Call (PatchTransaction ''tx-1''),
              Call (SignTransaction ''tx-1''), Call (PostSubmit ''tx-1'' ''signed tx-1''),
              Log (LogSubmitted ''ok''),
              Call (GetStatus ''tx-1''), Log LogPending, Delay 2000,
              Call (GetStatus ''tx-1''), Log LogPending, Delay 2000,
              Call (GetStatus ''tx-1''), Log (LogConfirmed (Some ''url''))] initialState"
  let ?g = "exampleTx ''tx-g''"
  let ?ug = "\<lparr>unsignedTransaction = ''tx-g''\<rparr>"
  let ?s1 = "emits [Log (LogTx ''STAKE''), Call (PatchTransaction ''tx-g'')] ?s0"
  have g1: "processTransactions exampleWorld exampleWallet [exampleTx ''tx-1''] initialState
              = Some (Inr (), ?s0)"
    by (rule example_run_tx1)
  have g2: "tx_status ?g \<noteq> ''SKIPPED''"
    by (simp add: exampleTx_def)
  have g3: "constructLoop exampleWorld (tx_id ?g) 0 (emit (Log (LogTx (tx_type ?g))) ?s0) = (Some ?ug, ?s1)"
    by (simp add: constructLoop.simps exampleWorld_def exampleTx_def emit_def emits_def)
  have g4: "signTransaction exampleWallet (unsignedTransaction ?ug) = None"
    by (simp add: exampleWallet_def)
  have sign: "processTransactions exampleWorld exampleWallet
      ([exampleTx ''tx-1''] @ ?g # [exampleTx ''tx-2'']) initialState =
     Some (Inl (SignerFailed (unsignedTransaction ?ug)),
           emits [Call (SignTransaction (unsignedTransaction ?ug))] ?s1)"
    using signing_or_submission_failure_aborts_batch [OF g1 g2 g3, of "[exampleTx ''tx-2'']"] g4
    by blast
  let ?t = "exampleTx ''tx-s''"
  let ?ut = "\<lparr>unsignedTransaction = ''tx-s''\<rparr>"
  let ?s2 = "emits [Log (LogTx ''STAKE''), Call (PatchTransaction ''tx-s'')] initialState"
  have t1: "processTransactions exampleWorld exampleWallet [] initialState = Some (Inr (), initialState)"
    by simp
  have t2: "tx_status ?t \<noteq> ''SKIPPED''"
    by (simp add: exampleTx_def)
  have t3: "constructLoop exampleWorld (tx_id ?t) 0 (emit (Log (LogTx (tx_type ?t))) initialState) = (Some ?ut, ?s2)"
    by (simp add: constructLoop.simps exampleWorld_def exampleTx_def emit_def emits_def)
  have t4: "signTransaction exampleWallet (unsignedTransaction ?ut) = Some ''signed tx-s''
            \<and> w_submit exampleWorld (trace ?s2 @ [Call (SignTransaction (unsignedTransaction ?ut))])
                 (tx_id ?t) ''signed tx-s'' = None"
    by (simp add: exampleWallet_def exampleWorld_def exampleTx_def)
  have submit: "processTransactions exampleWorld exampleWallet
      ([] @ ?t # [exampleTx ''tx-2'']) initialState =
     Some (Inl (RequestFailed (PostSubmit (tx_id ?t) ''signed tx-s'')),
           emits [Call (SignTransaction (unsignedTransaction ?ut)),
                  Call (PostSubmit (tx_id ?t) ''signed tx-s'')] ?s2)"
    using signing_or_submission_failure_aborts_batch [OF t1 t2 t3, of "[exampleTx ''tx-2'']"] t4
    by blast
  have e1: "[exampleTx ''tx-1''] @ ?g # [exampleTx ''tx-2'']
              = [exampleTx ''tx-1'', exampleTx ''tx-g'', exampleTx ''tx-2'']"
    by simp
  have e2: "[] @ ?t # [exampleTx ''tx-2''] = [exampleTx ''tx-s'', exampleTx ''tx-2'']"
    by simp
  show ?thesis
    using sign submit unfolding e1 e2
    by (simp only:) (simp add: emits_def exampleTx_def)
qed

section \<open>Properties of the step executor\<close>








section \<open>Properties of the intake\<close>



text \<open>
  C7, as the code has it. A text without a fenced block (no opening fence followed by a
  closing fence) is no action: no step runs, \<open>runAiScenario\<close> returns false, nothing is
  thrown. Text after the block is ignored: the group the regular expression captures, and so
  the operation that is parsed, are the same with and without it.
\<close>

theorem no_block_is_no_action_and_trailing_text_is_ignored:
  "(w_chat w (trace s) systemInstructions (earnAgentData s) userMsg = Some rawAiText
      \<and> \<not> (\<exists>before captured after.
              rawAiText = before @ fenceOpen @ captured @ fenceClose @ after) \<longrightarrow>
        runAiScenario w wal systemInstructions userMsg s =
          Some (Inr False,
                emits [Call (ChatCompletion systemInstructions (earnAgentData s) userMsg),
                       Log (LogAiText (trim rawAiText))] s))
   \<and> (\<forall>captured. scenarioRegexExec aiText = Some captured \<longrightarrow>
         scenarioRegexExec (aiText @ trailing) = Some captured
         \<and> parseOpFromCodeBlock w (aiText @ trailing) s = parseOpFromCodeBlock w aiText s)"
proof (intro conjI allI impI)
  assume a: "w_chat w (trace s) systemInstructions (earnAgentData s) userMsg = Some rawAiText
      \<and> \<not> (\<exists>before captured after.
              rawAiText = before @ fenceOpen @ captured @ fenceClose @ after)"
  then have "scenarioRegexExec rawAiText = None"
    by (simp add: scenarioRegexExec_None_iff)
  with a show "runAiScenario w wal systemInstructions userMsg s =
          Some (Inr False,
                emits [Call (ChatCompletion systemInstructions (earnAgentData s) userMsg),
                       Log (LogAiText (trim rawAiText))] s)"
    by (simp add: runAiScenario_def parseOpFromCodeBlock_def request_def emit_def emits_def)
next
  fix captured
  assume a: "scenarioRegexExec aiText = Some captured"
  then show e: "scenarioRegexExec (aiText @ trailing) = Some captured"
    by (rule scenarioRegexExec_append)
  from a e show "parseOpFromCodeBlock w (aiText @ trailing) s = parseOpFromCodeBlock w aiText s"
    by (simp add: parseOpFromCodeBlock_def)
qed

theorem no_block_is_no_action_and_trailing_text_is_ignored_witness:
  "runAiScenario exampleWorld exampleWallet ChatInstructions ''hello'' initialState =
     Some (Inr False,
       emits [Call (ChatCompletion ChatInstructions (earnAgentData initialState) ''hello''),
              Log (LogAiText (trim ''Hello, nothing to do.''))] initialState)
   \<and> scenarioRegexExec ((''```json'' @ docExit @ ''```'') @ '' Done, as you asked.'') = Some docExit
   \<and> parseOpFromCodeBlock exampleWorld ((''```json'' @ docExit @ ''```'') @ '' Done, as you asked.'')
        initialState =
      parseOpFromCodeBlock exampleWorld (''```json'' @ docExit @ ''```'') initialState"
proof -
  note i = no_block_is_no_action_and_trailing_text_is_ignored
    [where w = exampleWorld and wal = exampleWallet and s = initialState
       and systemInstructions = ChatInstructions and userMsg = "''hello''"
       and rawAiText = "''Hello, nothing to do.''"
       and aiText = "''```json'' @ docExit @ ''```''" and trailing = "'' Done, as you asked.''"]
  have h: "w_chat exampleWorld (trace initialState) ChatInstructions (earnAgentData initialState)
             ''hello'' = Some ''Hello, nothing to do.''
      \<and> \<not> (\<exists>before captured after.
              ''Hello, nothing to do.'' = before @ fenceOpen @ captured @ fenceClose @ after)"
    using example_regex_hello scenarioRegexExec_None_iff [of "''Hello, nothing to do.''"]
    by (simp add: exampleWorld_def)
  have c1: "runAiScenario exampleWorld exampleWallet ChatInstructions ''hello'' initialState =
     Some (Inr False,
       emits [Call (ChatCompletion ChatInstructions (earnAgentData initialState) ''hello''),
              Log (LogAiText (trim ''Hello, nothing to do.''))] initialState)"
    using i h by blast
  have c2: "scenarioRegexExec ((''```json'' @ docExit @ ''```'') @ '' Done, as you asked.'') = Some docExit
   \<and> parseOpFromCodeBlock exampleWorld ((''```json'' @ docExit @ ''```'') @ '' Done, as you asked.'')
        initialState =
      parseOpFromCodeBlock exampleWorld (''```json'' @ docExit @ ''```'') initialState"
    using i example_regex_exit by blast
  show ?thesis using c1 c2 by blast
qed

text \<open>
  C7 as stated fails on text after the block: the answer below ends with a sentence after
  the closing fence, and its step is executed (an exit session of amount "5" is created).
\<close>

theorem text_after_the_block_does_not_stop_the_steps:
  "w_chat exampleWorld (trace initialState) ChatInstructions (earnAgentData initialState) ''exit 5'' =
     Some (''```json'' @ docExit @ ''``` Done, as you asked.'')
   \<and> returned (runAiScenario exampleWorld exampleWallet ChatInstructions ''exit 5'' initialState) =
       Some (Inr True)
   \<and> eventsFrom 2 (runAiScenario exampleWorld exampleWallet ChatInstructions ''exit 5'' initialState) =
       Some ([Log (LogStep (Some (JStr ''EXIT'')) (Some (JStr ''y1'')) (Some (JStr ''5''))),
              Call (PostAction ''exit'' (Some (JStr ''y1'')) ''0xabc'' (Some (JStr ''5''))),
              Log (LogDone (Some (JStr ''EXIT'')) (Some (JStr ''y1'')))] @ refreshEvents)"
  by (simp add: returned_def eventsFrom_def scenario_defs run_defs example_defs refreshEvents_def)

section \<open>Properties of the sequencing\<close>

text \<open>
  C8. The steps of an operation run in the order of the list, each from the state the one
  before left: running \<open>xs @ ys\<close> is running \<open>xs\<close>, then \<open>ys\<close> when
  \<open>xs\<close> returned. When a step throws, no later step runs and the error leaves the
  loop. When a step returns, the next one starts from the state it left; if
  the step created an action session, that state is the one left by a refresh that succeeded
  and that started after the session was created and its batch processed, whatever happened
  to the transactions of the batch. A refresh that succeeds replaces the three fields of the
  snapshot: the state it leaves does not depend on the snapshot before.
\<close>

theorem steps_run_in_order_with_a_refresh_after_each:
  "runSteps w wal (xs @ ys) s =
     (case runSteps w wal xs s of
        None \<Rightarrow> None
      | Some (Inl e, s1) \<Rightarrow> Some (Inl e, s1)
      | Some (Inr u, s1) \<Rightarrow> runSteps w wal ys s1)
   \<and> (\<forall>e s'. step \<noteq> JNull
          \<and> runScenarioStep w wal (getProp step ''type'') (getProp step ''integrationId'')
               (getProp step ''amount'') s = Some (Inl e, s') \<longrightarrow>
         runSteps w wal (step # steps) s = Some (Inl e, s'))
   \<and> (\<forall>s'. step \<noteq> JNull
          \<and> runScenarioStep w wal (getProp step ''type'') (getProp step ''integrationId'')
               (getProp step ''amount'') s = Some (Inr (), s') \<longrightarrow>
         runSteps w wal (step # steps) s = runSteps w wal steps s'
         \<and> (createdSession s s' \<longrightarrow>
               (\<exists>s2. continues s s2 \<and> createdSession s s2
                  \<and> refreshEarnAgentData w (getAddress wal) s2 = (Inr (), s'))))
   \<and> (\<forall>s' d. refreshEarnAgentData w address s = (Inr (), s') \<longrightarrow>
         refreshEarnAgentData w address (s\<lparr>earnAgentData := d\<rparr>) = (Inr (), s'))"
proof (intro conjI allI impI)
  show "runSteps w wal (xs @ ys) s =
     (case runSteps w wal xs s of
        None \<Rightarrow> None
      | Some (Inl e, s1) \<Rightarrow> Some (Inl e, s1)
      | Some (Inr u, s1) \<Rightarrow> runSteps w wal ys s1)"
    by (rule runSteps_append)
next
  fix e s'
  assume "step \<noteq> JNull
          \<and> runScenarioStep w wal (getProp step ''type'') (getProp step ''integrationId'')
               (getProp step ''amount'') s = Some (Inl e, s')"
  then show "runSteps w wal (step # steps) s = Some (Inl e, s')" by simp
next
  fix s'
  assume a: "step \<noteq> JNull
          \<and> runScenarioStep w wal (getProp step ''type'') (getProp step ''integrationId'')
               (getProp step ''amount'') s = Some (Inr (), s')"
  then show "runSteps w wal (step # steps) s = runSteps w wal steps s'" by simp
  assume "createdSession s s'"
  with a show "\<exists>s2. continues s s2 \<and> createdSession s s2
                  \<and> refreshEarnAgentData w (getAddress wal) s2 = (Inr (), s')"
    using runScenarioStep_refreshes by blast
next
  fix s' d
  assume "refreshEarnAgentData w address s = (Inr (), s')"
  then show "refreshEarnAgentData w address (s\<lparr>earnAgentData := d\<rparr>) = (Inr (), s')"
    by (rule refreshEarnAgentData_replaces)
qed

theorem steps_run_in_order_with_a_refresh_after_each_witness:
  "runSteps exampleWorld exampleWallet [stepExit, stepEnter] initialState =
     Some (Inr (), (emits (exitEvents None @ enterSkipEvents) initialState)\<lparr>earnAgentData := refreshedData\<rparr>)
   \<and> (\<exists>s2. continues initialState s2 \<and> createdSession initialState s2
          \<and> refreshEarnAgentData exampleWorld ''0xabc'' s2 =
              (Inr (), (emits (exitEvents None) initialState)\<lparr>earnAgentData := refreshedData\<rparr>))
   \<and> refreshEarnAgentData exampleWorld ''0xabc'' (initialState\<lparr>earnAgentData := refreshedData\<rparr>) =
       (Inr (), (emits refreshEvents initialState)\<lparr>earnAgentData := refreshedData\<rparr>)
   \<and> runSteps exampleWorld exampleWallet [stepUnknown, stepEnter] initialState =
     Some (Inl (RequestFailed (PostYieldBalances (Some (JStr ''y3'')) ''0xabc'')),
           emits [Log (LogStep (Some (JStr ''EXIT'')) (Some (JStr ''y3'')) None),
                  Call (PostYieldBalances (Some (JStr ''y3'')) ''0xabc'')] initialState)"
proof -
  let ?s' = "(emits (exitEvents None) initialState)\<lparr>earnAgentData := refreshedData\<rparr>"
  note i = steps_run_in_order_with_a_refresh_after_each
    [where w = exampleWorld and wal = exampleWallet and s = initialState and step = stepExit
       and steps = "[stepEnter]" and xs = "[stepExit]" and ys = "[stepEnter]"
       and address = "''0xabc''"]
  have f: "\<not> truthy None" by simp
  have h: "stepExit \<noteq> JNull
        \<and> runScenarioStep exampleWorld exampleWallet (getProp stepExit ''type'')
             (getProp stepExit ''integrationId'') (getProp stepExit ''amount'') initialState
           = Some (Inr (), ?s')"
    using example_exit [OF f] by (simp add: stepExit_def)
  have cs: "createdSession initialState ?s'"
    by (simp add: createdSession_def emits_def exitEvents_def)
  have g: "getAddress exampleWallet = ''0xabc''" by (simp add: exampleWallet_def)
  have c1: "runSteps exampleWorld exampleWallet (stepExit # [stepEnter]) initialState =
              runSteps exampleWorld exampleWallet [stepEnter] ?s'"
    using i h by blast
  have c2: "\<exists>s2. continues initialState s2 \<and> createdSession initialState s2
          \<and> refreshEarnAgentData exampleWorld (getAddress exampleWallet) s2 = (Inr (), ?s')"
    using i h cs by blast
  have c3: "refreshEarnAgentData exampleWorld ''0xabc'' (initialState\<lparr>earnAgentData := refreshedData\<rparr>) =
       (Inr (), (emits refreshEvents initialState)\<lparr>earnAgentData := refreshedData\<rparr>)"
    using i example_refresh [of initialState] by blast
  \<comment> \<open>a step that throws: the position of y3 cannot be queried\<close>
  let ?e = "RequestFailed (PostYieldBalances (Some (JStr ''y3'')) ''0xabc'')"
  let ?t = "emits [Log (LogStep (Some (JStr ''EXIT'')) (Some (JStr ''y3'')) None),
                   Call (PostYieldBalances (Some (JStr ''y3'')) ''0xabc'')] initialState"
  have hu: "stepUnknown \<noteq> JNull
        \<and> runScenarioStep exampleWorld exampleWallet (getProp stepUnknown ''type'')
             (getProp stepUnknown ''integrationId'') (getProp stepUnknown ''amount'') initialState
           = Some (Inl ?e, ?t)"
    by (simp add: stepUnknown_def run_defs example_defs)
  have c4: "runSteps exampleWorld exampleWallet (stepUnknown # [stepEnter]) initialState
              = Some (Inl ?e, ?t)"
    using steps_run_in_order_with_a_refresh_after_each
      [where w = exampleWorld and wal = exampleWallet and s = initialState and step = stepUnknown
         and steps = "[stepEnter]"] hu
    by blast
  show ?thesis
    using c1 c2 c3 c4 example_enter_skipped unfolding g by simp
qed

section \<open>Properties of the busy flag\<close>



end
